theory Spec2Isabelle
  imports Main "HOL-Library.Word" "HOL-Library.AList"
begin

unbundle bit_operations_syntax

section \<open>Numbits: the bitset codec\<close>

text \<open>
  \<^verbatim>\<open>coverage.numbits\<close> is imported by \<^verbatim>\<open>sqldata.py\<close> but is not among the
  source files, so the three functions used from it are modelled from the specification
  (section 4.1): a blob is a byte array in which bit \<open>i mod 8\<close> of byte \<open>i div 8\<close>
  records membership of the value \<open>i\<close>; no trailing zero byte is produced; the union
  treats the shorter blob as padded with zero bytes.
\<close>

type_synonym byte = "8 word"
type_synonym numbits = "byte list"

text \<open>Modelled from the spec: \<^verbatim>\<open>nums_to_numbits\<close>, the encoder of section 4.1.\<close>

definition nums_to_numbits :: "nat list \<Rightarrow> numbits" where
  "nums_to_numbits nums =
     (if nums = [] then []
      else map (\<lambda>byte_i. horner_sum of_bool 2
                  (map (\<lambda>bit_i. byte_i * 8 + bit_i \<in> set nums) [0..<8]))
               [0 ..< Max (set nums) div 8 + 1])"

text \<open>Modelled from the spec: \<^verbatim>\<open>numbits_to_nums\<close>, the decoder of section 4.1.\<close>

definition numbits_to_nums :: "numbits \<Rightarrow> nat list" where
  "numbits_to_nums numbits =
     concat (map (\<lambda>byte_i. map (\<lambda>bit_i. byte_i * 8 + bit_i)
                    (filter (\<lambda>bit_i. bit (numbits ! byte_i) bit_i) [0..<8]))
                 [0 ..< length numbits])"

text \<open>Modelled from the spec: \<^verbatim>\<open>numbits_union\<close>, the bytewise union of section 4.1.\<close>

fun numbits_union :: "numbits \<Rightarrow> numbits \<Rightarrow> numbits" where
  "numbits_union [] ys = ys"
| "numbits_union xs [] = xs"
| "numbits_union (x # xs) (y # ys) = (x OR y) # numbits_union xs ys"

section \<open>The relational store\<close>

text \<open>
  The tables of \<^verbatim>\<open>SCHEMA\<close>, each a list of rows. \<open>schema_version\<close> is the single
  row of \<^verbatim>\<open>coverage_schema\<close>; \<open>None\<close> stands for a database in which that table
  does not exist yet (a database that was just created). The uniqueness constraints of
  the schema are the predicate \<open>db_unique\<close> below.
\<close>

record database =
  schema_version :: "int option"
  meta :: "(string \<times> string) list"
  file_tbl :: "(nat \<times> string) list"
  context_tbl :: "(nat \<times> string) list"
  line_bits_tbl :: "(nat \<times> nat \<times> numbits) list"
  arc_tbl :: "(nat \<times> nat \<times> int \<times> int) list"
  tracer_tbl :: "(nat \<times> string) list"

definition SCHEMA_VERSION :: int where
  "SCHEMA_VERSION = 7"

definition empty_database :: database where
  "empty_database = \<lparr>schema_version = None, meta = [], file_tbl = [], context_tbl = [],
     line_bits_tbl = [], arc_tbl = [], tracer_tbl = []\<rparr>"

definition db_unique :: "database \<Rightarrow> bool" where
  "db_unique db \<longleftrightarrow>
     distinct (map fst (meta db)) \<and>
     distinct (map fst (file_tbl db)) \<and> distinct (map snd (file_tbl db)) \<and>
     distinct (map fst (context_tbl db)) \<and> distinct (map snd (context_tbl db)) \<and>
     distinct (map (\<lambda>(f, c, nb). (f, c)) (line_bits_tbl db)) \<and>
     distinct (arc_tbl db) \<and>
     distinct (map fst (tracer_tbl db))"

subsection \<open>The SQL statements the class issues\<close>

text \<open>The rowid SQLite gives a new row of a table with an integer primary key.\<close>

definition new_rowid :: "(nat \<times> 'a) list \<Rightarrow> nat" where
  "new_rowid tbl = (if tbl = [] then 1 else Max (set (map fst tbl)) + 1)"

text \<open>\<^verbatim>\<open>insert or replace into file (path) values (?)\<close>, returning the new rowid.\<close>

definition insert_or_replace_name :: "string \<Rightarrow> (nat \<times> string) list \<Rightarrow> nat \<times> (nat \<times> string) list" where
  "insert_or_replace_name name tbl =
     (let rid = new_rowid tbl
      in (rid, filter (\<lambda>(i, n). n \<noteq> name) tbl @ [(rid, name)]))"

text \<open>\<^verbatim>\<open>insert or ignore into file (path) values (?)\<close>, and the same on \<^verbatim>\<open>context\<close>.\<close>

definition insert_or_ignore_name :: "string \<Rightarrow> (nat \<times> string) list \<Rightarrow> (nat \<times> string) list" where
  "insert_or_ignore_name name tbl =
     (if name \<in> snd ` set tbl then tbl else tbl @ [(new_rowid tbl, name)])"

text \<open>\<^verbatim>\<open>insert into context (context) values (?)\<close>: \<open>None\<close> when the unique constraint fails.\<close>

definition insert_name :: "string \<Rightarrow> (nat \<times> string) list \<Rightarrow> (nat \<times> (nat \<times> string) list) option" where
  "insert_name name tbl =
     (if name \<in> snd ` set tbl then None
      else Some (new_rowid tbl, tbl @ [(new_rowid tbl, name)]))"

text \<open>\<^verbatim>\<open>select id from T where name = ?\<close>, read with \<^verbatim>\<open>execute_one\<close>.\<close>

definition select_id :: "string \<Rightarrow> (nat \<times> string) list \<Rightarrow> nat option" where
  "select_id name tbl = map_option fst (find (\<lambda>(i, n). n = name) tbl)"

text \<open>\<^verbatim>\<open>insert or ignore into meta (key, value) values (?, ?)\<close>.\<close>

definition meta_insert_or_ignore :: "string \<Rightarrow> string \<Rightarrow> (string \<times> string) list \<Rightarrow> (string \<times> string) list" where
  "meta_insert_or_ignore k v tbl = (if k \<in> fst ` set tbl then tbl else tbl @ [(k, v)])"

text \<open>\<^verbatim>\<open>select numbits from line_bits where file_id = ? and context_id = ?\<close>.\<close>

definition select_numbits :: "nat \<Rightarrow> nat \<Rightarrow> (nat \<times> nat \<times> numbits) list \<Rightarrow> numbits list" where
  "select_numbits fid cid tbl = map (\<lambda>(f, c, nb). nb) (filter (\<lambda>(f, c, nb). f = fid \<and> c = cid) tbl)"

text \<open>\<^verbatim>\<open>insert or replace into line_bits (file_id, context_id, numbits) values (?, ?, ?)\<close>.\<close>

definition replace_line_bits :: "nat \<Rightarrow> nat \<Rightarrow> numbits \<Rightarrow> (nat \<times> nat \<times> numbits) list \<Rightarrow> (nat \<times> nat \<times> numbits) list" where
  "replace_line_bits fid cid nb tbl =
     filter (\<lambda>(f, c, nb'). \<not> (f = fid \<and> c = cid)) tbl @ [(fid, cid, nb)]"

text \<open>\<^verbatim>\<open>insert or ignore into arc (file_id, context_id, fromno, tono) values (?, ?, ?, ?)\<close>.\<close>

definition insert_or_ignore_arc :: "nat \<times> nat \<times> int \<times> int \<Rightarrow> (nat \<times> nat \<times> int \<times> int) list \<Rightarrow> (nat \<times> nat \<times> int \<times> int) list" where
  "insert_or_ignore_arc row tbl = (if row \<in> set tbl then tbl else tbl @ [row])"

text \<open>\<^verbatim>\<open>insert into tracer (file_id, tracer) values (?, ?)\<close>: \<open>None\<close> when the primary key exists.\<close>

definition insert_tracer :: "nat \<Rightarrow> string \<Rightarrow> (nat \<times> string) list \<Rightarrow> (nat \<times> string) list option" where
  "insert_tracer fid tracer tbl =
     (if fid \<in> fst ` set tbl then None else Some (tbl @ [(fid, tracer)]))"

text \<open>\<^verbatim>\<open>insert or ignore into tracer (file_id, tracer) values (?, ?)\<close>.\<close>

definition insert_or_ignore_tracer :: "nat \<times> string \<Rightarrow> (nat \<times> string) list \<Rightarrow> (nat \<times> string) list" where
  "insert_or_ignore_tracer row tbl = (if fst row \<in> fst ` set tbl then tbl else tbl @ [row])"

text \<open>
  \<^verbatim>\<open>bool(int(row[0]))\<close> on the text of the \<^verbatim>\<open>has_arcs\<close> row: a string of decimal
  digits is a number, anything else is a \<^verbatim>\<open>ValueError\<close>. (Python's \<^verbatim>\<open>int\<close> also takes
  a sign, blanks and underscores; the class only ever writes \<^verbatim>\<open>"0"\<close> or \<^verbatim>\<open>"1"\<close>.)
\<close>

definition is_digit :: "char \<Rightarrow> bool" where
  "is_digit c \<longleftrightarrow> c \<in> set ''0123456789''"

definition bool_of_int_text :: "string \<Rightarrow> bool option" where
  "bool_of_int_text v =
     (if v \<noteq> [] \<and> list_all is_digit v then Some (\<not> list_all (\<lambda>c. c = CHR ''0'') v) else None)"

section \<open>The store object\<close>

datatype error =
    DataError_wrong_schema int int
  | DataError_lines_to_arcs
  | DataError_arcs_to_lines
  | DataError_conflicting_tracer string string string
  | DataError_touch_empty
  | DataError_purge_empty
  | DataError_combine_arc_with_line
  | DataError_combine_line_with_arc
  | DataError_unrecognized_serialization "byte list" nat
  | AssertionError
  | ValueError
  | KeyError
  | IntegrityError
  | ProgrammingError
  | DeserializeError

text \<open>
  The attributes of a \<^verbatim>\<open>CoverageData\<close> object, for one thread of one process:
  \<open>dbs\<close> is the entry of \<^verbatim>\<open>self._dbs\<close> for the calling thread, holding the contents of
  the database it is connected to; \<open>disk_file\<close> is the file \<^verbatim>\<open>self._filename\<close> on disk
  while no connection is open (\<open>None\<close>: no such file); \<open>coverage_version\<close> is the
  constant \<^verbatim>\<open>coverage.version.__version__\<close>. Debug output is off
  (\<^verbatim>\<open>NoDebugging\<close>) and the lock is not modelled.
\<close>

record CoverageData =
  no_disk :: bool
  coverage_version :: string
  disk_file :: "database option"
  dbs :: "database option"
  file_map :: "string \<rightharpoonup> nat"
  have_used :: bool
  has_lines :: bool
  has_arcs :: bool
  current_context :: "string option"
  current_context_id :: "nat option"
  query_context_ids :: "nat list option"

text \<open>\<^verbatim>\<open>__init__\<close>: the object for a data file whose present contents on disk are \<open>disk\<close>.\<close>

definition init :: "bool \<Rightarrow> string \<Rightarrow> database option \<Rightarrow> CoverageData" where
  "init nodisk ver disk =
     \<lparr>no_disk = nodisk, coverage_version = ver,
      disk_file = (if nodisk then None else disk), dbs = None,
      file_map = Map.empty, have_used = False, has_lines = False, has_arcs = False,
      current_context = None, current_context_id = None, query_context_ids = None\<rparr>"

text \<open>
  Modelled from the spec: the context manager of \<^verbatim>\<open>SqliteDb\<close> (\<^verbatim>\<open>coverage/sqlitedb.py\<close>
  is not among the source files). By section 5 of the specification every \<^verbatim>\<open>with\<close>
  block on a connection is one atomic unit: an exception that leaves the block restores
  the database to its contents at entry. The attributes of the object keep the values
  they had when the exception was raised.
\<close>

definition rollback :: "CoverageData \<Rightarrow> (error \<times> CoverageData) + 'a \<Rightarrow> (error \<times> CoverageData) + 'a" where
  "rollback s0 r = (case r of Inl (e, s) \<Rightarrow> Inl (e, s\<lparr>dbs := dbs s0\<rparr>) | Inr x \<Rightarrow> Inr x)"

definition reset :: "CoverageData \<Rightarrow> CoverageData" where
  "reset s =
     (let s1 = (if \<not> no_disk s
                then s\<lparr>disk_file := (case dbs s of Some db \<Rightarrow> Some db | None \<Rightarrow> disk_file s),
                       dbs := None\<rparr>
                else s)
      in s1\<lparr>file_map := Map.empty, have_used := False, current_context_id := None\<rparr>)"

text \<open>\<^verbatim>\<open>_init_db\<close>: create the tables and stamp the version.\<close>

definition init_db :: "string \<Rightarrow> database \<Rightarrow> database" where
  "init_db ver db =
     db\<lparr>schema_version := Some SCHEMA_VERSION,
        meta := meta_insert_or_ignore ''version'' ver (meta db)\<rparr>"

text \<open>
  The \<^verbatim>\<open>try\<close> statement of \<^verbatim>\<open>_read_db\<close>: a database without the schema is
  initialised, one with another version is refused.
\<close>

definition check_schema :: "string \<Rightarrow> database \<Rightarrow> error + database" where
  "check_schema ver db =
     (case schema_version db of
        None \<Rightarrow> Inr (init_db ver db)
      | Some v \<Rightarrow> if v \<noteq> SCHEMA_VERSION
                  then Inl (DataError_wrong_schema v SCHEMA_VERSION)
                  else Inr db)"

text \<open>The \<^verbatim>\<open>has_arcs\<close> row sets both flags; \<open>None\<close> is the \<^verbatim>\<open>ValueError\<close> of \<^verbatim>\<open>int\<close>.\<close>

definition load_has_arcs :: "database \<Rightarrow> CoverageData \<Rightarrow> CoverageData option" where
  "load_has_arcs db s =
     (case map_of (meta db) ''has_arcs'' of
        None \<Rightarrow> Some s
      | Some v \<Rightarrow> map_option (\<lambda>a. s\<lparr>has_arcs := a, has_lines := \<not> a\<rparr>) (bool_of_int_text v))"

text \<open>The loop \<^verbatim>\<open>self._file_map[path] = file_id\<close> over the rows of \<^verbatim>\<open>file\<close>.\<close>

definition load_file_map :: "(nat \<times> string) list \<Rightarrow> (string \<rightharpoonup> nat) \<Rightarrow> (string \<rightharpoonup> nat)" where
  "load_file_map tbl m = fold (\<lambda>(fid, path) m. m(path \<mapsto> fid)) tbl m"

definition read_db :: "CoverageData \<Rightarrow> (error \<times> CoverageData) + CoverageData" where
  "read_db s =
     (case dbs s of
        None \<Rightarrow> Inl (KeyError, s)
      | Some db \<Rightarrow>
         (case check_schema (coverage_version s) db of
            Inl e \<Rightarrow> Inl (e, s)
          | Inr db1 \<Rightarrow>
             (case load_has_arcs db1 s of
                None \<Rightarrow> Inl (ValueError, s)
              | Some s1 \<Rightarrow>
                  Inr (s1\<lparr>dbs := Some db1,
                          file_map := load_file_map (file_tbl db1) (file_map s1)\<rparr>))))"

definition open_db :: "CoverageData \<Rightarrow> (error \<times> CoverageData) + CoverageData" where
  "open_db s =
     read_db (s\<lparr>dbs := Some (if no_disk s then empty_database
                              else (case disk_file s of None \<Rightarrow> empty_database
                                    | Some db \<Rightarrow> db))\<rparr>)"

text \<open>\<^verbatim>\<open>_connect\<close> returns the connection, here the database behind it.\<close>

definition connect :: "CoverageData \<Rightarrow> (error \<times> CoverageData) + (database \<times> CoverageData)" where
  "connect s =
     (case dbs s of
        Some db \<Rightarrow> Inr (db, s)
      | None \<Rightarrow>
         (case open_db s of
            Inl e \<Rightarrow> Inl e
          | Inr s1 \<Rightarrow> (case dbs s1 of None \<Rightarrow> Inl (KeyError, s1) | Some db \<Rightarrow> Inr (db, s1))))"

text \<open>\<^verbatim>\<open>erase(parallel=False)\<close>.\<close>

definition erase :: "CoverageData \<Rightarrow> CoverageData" where
  "erase s = (let s1 = reset s in if no_disk s1 then s1 else s1\<lparr>disk_file := None\<rparr>)"

text \<open>\<^verbatim>\<open>os.path.exists(self._filename)\<close>.\<close>

definition path_exists :: "CoverageData \<Rightarrow> bool" where
  "path_exists s \<longleftrightarrow> \<not> no_disk s \<and> (dbs s \<noteq> None \<or> disk_file s \<noteq> None)"

definition read :: "CoverageData \<Rightarrow> (error \<times> CoverageData) + CoverageData" where
  "read s =
     (if path_exists s
      then (case connect s of Inl e \<Rightarrow> Inl e | Inr (db, s1) \<Rightarrow> Inr (s1\<lparr>have_used := True\<rparr>))
      else Inr s)"

text \<open>\<^verbatim>\<open>_start_using\<close>; the process id never changes in this model (no fork).\<close>

definition start_using :: "CoverageData \<Rightarrow> CoverageData" where
  "start_using s = (if \<not> have_used s then erase s else s)\<lparr>have_used := True\<rparr>"

text \<open>
  \<^verbatim>\<open>_file_id(filename, add=True)\<close>, which always returns an id, and
  \<^verbatim>\<open>_file_id(filename, add=False)\<close>, which is the lookup \<open>file_map s filename\<close>.
\<close>

definition file_id_add :: "CoverageData \<Rightarrow> string \<Rightarrow> (error \<times> CoverageData) + (nat \<times> CoverageData)" where
  "file_id_add s filename =
     (case file_map s filename of
        Some fid \<Rightarrow> Inr (fid, s)
      | None \<Rightarrow>
         (case connect s of
            Inl e \<Rightarrow> Inl e
          | Inr (db, s1) \<Rightarrow>
             (let (rid, tbl) = insert_or_replace_name filename (file_tbl db)
              in Inr (rid, s1\<lparr>dbs := Some (db\<lparr>file_tbl := tbl\<rparr>),
                              file_map := (file_map s1)(filename \<mapsto> rid)\<rparr>))))"

definition context_id :: "CoverageData \<Rightarrow> string \<Rightarrow> (error \<times> CoverageData) + (nat option \<times> CoverageData)" where
  "context_id s context =
     (case connect (start_using s) of
        Inl e \<Rightarrow> Inl e
      | Inr (db, s1) \<Rightarrow> Inr (select_id context (context_tbl db), s1))"

definition set_context :: "CoverageData \<Rightarrow> string option \<Rightarrow> CoverageData" where
  "set_context s context = s\<lparr>current_context := context, current_context_id := None\<rparr>"

text \<open>\<^verbatim>\<open>_set_context_id\<close>; the id it stores in \<open>current_context_id\<close> is also returned.\<close>

definition set_context_id :: "CoverageData \<Rightarrow> (error \<times> CoverageData) + (nat \<times> CoverageData)" where
  "set_context_id s =
     (let context = (case current_context s of None \<Rightarrow> [] | Some c \<Rightarrow> c)
      in case context_id s context of
           Inl e \<Rightarrow> Inl e
         | Inr (Some cid, s1) \<Rightarrow> Inr (cid, s1\<lparr>current_context_id := Some cid\<rparr>)
         | Inr (None, s1) \<Rightarrow>
            (case connect s1 of
               Inl e \<Rightarrow> Inl e
             | Inr (db, s2) \<Rightarrow>
                (case insert_name context (context_tbl db) of
                   None \<Rightarrow> Inl (IntegrityError, s2)
                 | Some (rid, tbl) \<Rightarrow>
                     Inr (rid, s2\<lparr>dbs := Some (db\<lparr>context_tbl := tbl\<rparr>),
                                  current_context_id := Some rid\<rparr>))))"

definition choose_lines_or_arcs :: "CoverageData \<Rightarrow> bool \<Rightarrow> bool \<Rightarrow> (error \<times> CoverageData) + CoverageData" where
  "choose_lines_or_arcs s lines arcs =
     (if \<not> (lines \<or> arcs) then Inl (AssertionError, s)
      else if lines \<and> arcs then Inl (AssertionError, s)
      else if lines \<and> has_arcs s then Inl (DataError_lines_to_arcs, s)
      else if arcs \<and> has_lines s then Inl (DataError_arcs_to_lines, s)
      else if \<not> has_arcs s \<and> \<not> has_lines s then
        (case connect (s\<lparr>has_lines := lines, has_arcs := arcs\<rparr>) of
           Inl e \<Rightarrow> Inl e
         | Inr (db, s1) \<Rightarrow>
             Inr (s1\<lparr>dbs := Some (db\<lparr>meta := meta_insert_or_ignore ''has_arcs''
                                              (if arcs then ''1'' else ''0'') (meta db)\<rparr>)\<rparr>))
      else Inr s)"

text \<open>The loop of \<^verbatim>\<open>add_lines\<close> over \<^verbatim>\<open>line_data.items()\<close>, under context id \<open>cid\<close>.\<close>

fun add_lines_loop :: "nat \<Rightarrow> CoverageData \<Rightarrow> (string \<times> nat list) list \<Rightarrow> (error \<times> CoverageData) + CoverageData" where
  "add_lines_loop cid s [] = Inr s"
| "add_lines_loop cid s ((filename, linenos) # rest) =
     (case file_id_add s filename of
        Inl e \<Rightarrow> Inl e
      | Inr (fid, s1) \<Rightarrow>
         (case dbs s1 of
            None \<Rightarrow> Inl (ProgrammingError, s1)
          | Some db \<Rightarrow>
             (let existing = select_numbits fid cid (line_bits_tbl db);
                  line_bits = (case existing of
                                 [] \<Rightarrow> nums_to_numbits linenos
                               | nb # _ \<Rightarrow> numbits_union (nums_to_numbits linenos) nb)
              in add_lines_loop cid
                   (s1\<lparr>dbs := Some (db\<lparr>line_bits_tbl :=
                                          replace_line_bits fid cid line_bits (line_bits_tbl db)\<rparr>)\<rparr>)
                   rest)))"

definition add_lines :: "CoverageData \<Rightarrow> (string \<times> nat list) list \<Rightarrow> (error \<times> CoverageData) + CoverageData" where
  "add_lines s line_data =
     (case choose_lines_or_arcs (start_using s) True False of
        Inl e \<Rightarrow> Inl e
      | Inr s1 \<Rightarrow>
         if line_data = [] then Inr s1
         else (case connect s1 of
                 Inl e \<Rightarrow> Inl e
               | Inr (db, s2) \<Rightarrow>
                   rollback s2
                     (case set_context_id s2 of
                        Inl e \<Rightarrow> Inl e
                      | Inr (cid, s3) \<Rightarrow> add_lines_loop cid s3 line_data)))"

text \<open>The loop of \<^verbatim>\<open>add_arcs\<close> over \<^verbatim>\<open>arc_data.items()\<close>.\<close>

fun add_arcs_loop :: "nat \<Rightarrow> CoverageData \<Rightarrow> (string \<times> (int \<times> int) list) list \<Rightarrow> (error \<times> CoverageData) + CoverageData" where
  "add_arcs_loop cid s [] = Inr s"
| "add_arcs_loop cid s ((filename, arcs) # rest) =
     (if arcs = [] then add_arcs_loop cid s rest
      else (case file_id_add s filename of
              Inl e \<Rightarrow> Inl e
            | Inr (fid, s1) \<Rightarrow>
               (case dbs s1 of
                  None \<Rightarrow> Inl (ProgrammingError, s1)
                | Some db \<Rightarrow>
                    add_arcs_loop cid
                      (s1\<lparr>dbs := Some (db\<lparr>arc_tbl :=
                              fold (\<lambda>(fromno, tono). insert_or_ignore_arc (fid, cid, fromno, tono))
                                   arcs (arc_tbl db)\<rparr>)\<rparr>)
                      rest)))"

definition add_arcs :: "CoverageData \<Rightarrow> (string \<times> (int \<times> int) list) list \<Rightarrow> (error \<times> CoverageData) + CoverageData" where
  "add_arcs s arc_data =
     (case choose_lines_or_arcs (start_using s) False True of
        Inl e \<Rightarrow> Inl e
      | Inr s1 \<Rightarrow>
         if arc_data = [] then Inr s1
         else (case connect s1 of
                 Inl e \<Rightarrow> Inl e
               | Inr (db, s2) \<Rightarrow>
                   rollback s2
                     (case set_context_id s2 of
                        Inl e \<Rightarrow> Inl e
                      | Inr (cid, s3) \<Rightarrow> add_arcs_loop cid s3 arc_data)))"

definition file_tracer :: "CoverageData \<Rightarrow> string \<Rightarrow> (error \<times> CoverageData) + (string option \<times> CoverageData)" where
  "file_tracer s filename =
     (case connect (start_using s) of
        Inl e \<Rightarrow> Inl e
      | Inr (db, s1) \<Rightarrow>
         (case file_map s1 filename of
            None \<Rightarrow> Inr (None, s1)
          | Some fid \<Rightarrow>
             (case map_of (tracer_tbl db) fid of
                Some tracer \<Rightarrow> Inr (Some tracer, s1)
              | None \<Rightarrow> Inr (Some [], s1))))"

text \<open>The loop of \<^verbatim>\<open>add_file_tracers\<close> over \<^verbatim>\<open>file_tracers.items()\<close>.\<close>

fun add_file_tracers_loop :: "CoverageData \<Rightarrow> (string \<times> string) list \<Rightarrow> (error \<times> CoverageData) + CoverageData" where
  "add_file_tracers_loop s [] = Inr s"
| "add_file_tracers_loop s ((filename, plugin_name) # rest) =
     (case file_id_add s filename of
        Inl e \<Rightarrow> Inl e
      | Inr (fid, s1) \<Rightarrow>
         (case file_tracer s1 filename of
            Inl e \<Rightarrow> Inl e
          | Inr (existing_plugin, s2) \<Rightarrow>
             if existing_plugin \<noteq> None \<and> existing_plugin \<noteq> Some [] then
               (if existing_plugin \<noteq> Some plugin_name
                then Inl (DataError_conflicting_tracer filename
                            (case existing_plugin of Some e \<Rightarrow> e | None \<Rightarrow> []) plugin_name, s2)
                else add_file_tracers_loop s2 rest)
             else if plugin_name \<noteq> [] then
               (case dbs s2 of
                  None \<Rightarrow> Inl (ProgrammingError, s2)
                | Some db \<Rightarrow>
                   (case insert_tracer fid plugin_name (tracer_tbl db) of
                      None \<Rightarrow> Inl (IntegrityError, s2)
                    | Some tbl \<Rightarrow>
                        add_file_tracers_loop (s2\<lparr>dbs := Some (db\<lparr>tracer_tbl := tbl\<rparr>)\<rparr>) rest))
             else add_file_tracers_loop s2 rest))"

definition add_file_tracers :: "CoverageData \<Rightarrow> (string \<times> string) list \<Rightarrow> (error \<times> CoverageData) + CoverageData" where
  "add_file_tracers s file_tracers =
     (if file_tracers = [] then Inr s
      else (case connect (start_using s) of
              Inl e \<Rightarrow> Inl e
            | Inr (db, s1) \<Rightarrow> rollback s1 (add_file_tracers_loop s1 file_tracers)))"

text \<open>The loop of \<^verbatim>\<open>touch_files\<close>; \<open>plugin_name\<close> is \<open>None\<close> for Python's \<^verbatim>\<open>None\<close>.\<close>

fun touch_files_loop :: "CoverageData \<Rightarrow> string list \<Rightarrow> string option \<Rightarrow> (error \<times> CoverageData) + CoverageData" where
  "touch_files_loop s [] plugin_name = Inr s"
| "touch_files_loop s (filename # rest) plugin_name =
     (case file_id_add s filename of
        Inl e \<Rightarrow> Inl e
      | Inr (fid, s1) \<Rightarrow>
         (case plugin_name of
            None \<Rightarrow> touch_files_loop s1 rest plugin_name
          | Some p \<Rightarrow>
             if p = [] then touch_files_loop s1 rest plugin_name
             else (case add_file_tracers s1 [(filename, p)] of
                     Inl e \<Rightarrow> Inl e
                   | Inr s2 \<Rightarrow> touch_files_loop s2 rest plugin_name)))"

definition touch_files :: "CoverageData \<Rightarrow> string list \<Rightarrow> string option \<Rightarrow> (error \<times> CoverageData) + CoverageData" where
  "touch_files s filenames plugin_name =
     (case connect (start_using s) of
        Inl e \<Rightarrow> Inl e
      | Inr (db, s1) \<Rightarrow>
          rollback s1
            (if \<not> has_arcs s1 \<and> \<not> has_lines s1 then Inl (DataError_touch_empty, s1)
             else touch_files_loop s1 filenames plugin_name))"

definition touch_file :: "CoverageData \<Rightarrow> string \<Rightarrow> string \<Rightarrow> (error \<times> CoverageData) + CoverageData" where
  "touch_file s filename plugin_name = touch_files s [filename] (Some plugin_name)"

text \<open>
  The loop of \<^verbatim>\<open>purge_files\<close>; \<open>line_mode\<close> says which of the two \<^verbatim>\<open>delete\<close>
  statements was chosen before the loop.
\<close>

fun purge_files_loop :: "bool \<Rightarrow> CoverageData \<Rightarrow> string list \<Rightarrow> (error \<times> CoverageData) + CoverageData" where
  "purge_files_loop line_mode s [] = Inr s"
| "purge_files_loop line_mode s (filename # rest) =
     (case file_map s filename of
        None \<Rightarrow> purge_files_loop line_mode s rest
      | Some fid \<Rightarrow>
         (case dbs s of
            None \<Rightarrow> Inl (ProgrammingError, s)
          | Some db \<Rightarrow>
              purge_files_loop line_mode
                (s\<lparr>dbs := Some (if line_mode
                                 then db\<lparr>line_bits_tbl := filter (\<lambda>(f, c, nb). f \<noteq> fid) (line_bits_tbl db)\<rparr>
                                 else db\<lparr>arc_tbl := filter (\<lambda>(f, c, fromno, tono). f \<noteq> fid) (arc_tbl db)\<rparr>)\<rparr>)
                rest))"

definition purge_files :: "CoverageData \<Rightarrow> string list \<Rightarrow> (error \<times> CoverageData) + CoverageData" where
  "purge_files s filenames =
     (case connect (start_using s) of
        Inl e \<Rightarrow> Inl e
      | Inr (db, s1) \<Rightarrow>
          rollback s1
            (if has_lines s1 then purge_files_loop True s1 filenames
             else if has_arcs s1 then purge_files_loop False s1 filenames
             else Inl (DataError_purge_empty, s1)))"

subsection \<open>Serialization\<close>

text \<open>
  \<^verbatim>\<open>zlib\<close> and SQLite's script execution and dump are outside the repository; they are
  parameters: \<open>decompress\<close> is \<^verbatim>\<open>zlib.decompress(...).decode("utf-8")\<close>, \<open>executescript\<close>
  runs a script on a database, \<open>dump\<close> is \<^verbatim>\<open>con.dump()\<close> and \<open>compress\<close> is
  \<^verbatim>\<open>zlib.compress(script.encode("utf-8"))\<close>; \<open>None\<close> is an exception of theirs.
\<close>

definition dumps :: "(database \<Rightarrow> string) \<Rightarrow> (string \<Rightarrow> byte list) \<Rightarrow> CoverageData \<Rightarrow> (error \<times> CoverageData) + (byte list \<times> CoverageData)" where
  "dumps dump compress s =
     (case connect s of
        Inl e \<Rightarrow> Inl e
      | Inr (db, s1) \<Rightarrow> Inr (122 # compress (dump db), s1))"

definition loads :: "(byte list \<Rightarrow> string option) \<Rightarrow> (string \<Rightarrow> database \<Rightarrow> database option) \<Rightarrow> CoverageData \<Rightarrow> byte list \<Rightarrow> (error \<times> CoverageData) + CoverageData" where
  "loads decompress executescript s data =
     (if take 1 data \<noteq> [122]
      then Inl (DataError_unrecognized_serialization (take 40 data) (length data), s)
      else (case decompress (drop 1 data) of
              None \<Rightarrow> Inl (DeserializeError, s)
            | Some script \<Rightarrow>
               (let db0 = (if no_disk s then empty_database
                           else (case dbs s of
                                   Some db \<Rightarrow> db
                                 | None \<Rightarrow> (case disk_file s of None \<Rightarrow> empty_database
                                            | Some db \<Rightarrow> db)));
                    s1 = s\<lparr>dbs := Some db0\<rparr>
                in case executescript script db0 of
                     None \<Rightarrow> Inl (DeserializeError, s1)
                   | Some db1 \<Rightarrow>
                      (case read_db (s1\<lparr>dbs := Some db1\<rparr>) of
                         Inl e \<Rightarrow> Inl e
                       | Inr s2 \<Rightarrow> Inr (s2\<lparr>have_used := True\<rparr>)))))"

subsection \<open>Queries\<close>

definition measured_files :: "CoverageData \<Rightarrow> string set" where
  "measured_files s = dom (file_map s)"

definition measured_contexts :: "CoverageData \<Rightarrow> (error \<times> CoverageData) + (string set \<times> CoverageData)" where
  "measured_contexts s =
     (case connect (start_using s) of
        Inl e \<Rightarrow> Inl e
      | Inr (db, s1) \<Rightarrow> Inr (set (map snd (context_tbl db)), s1))"

definition set_query_context :: "CoverageData \<Rightarrow> string \<Rightarrow> (error \<times> CoverageData) + CoverageData" where
  "set_query_context s context =
     (case connect (start_using s) of
        Inl e \<Rightarrow> Inl e
      | Inr (db, s1) \<Rightarrow>
          Inr (s1\<lparr>query_context_ids :=
                    Some (map fst (filter (\<lambda>(i, c). c = context) (context_tbl db)))\<rparr>))"

text \<open>
  \<open>re_search pattern text\<close> is Python's \<^verbatim>\<open>re.search(pattern, text) is not None\<close>, which
  \<^verbatim>\<open>SqliteDb\<close> registers as SQLite's \<^verbatim>\<open>REGEXP\<close>; it is a parameter. \<open>contexts\<close> is
  \<open>None\<close> for Python's \<^verbatim>\<open>None\<close>.
\<close>

definition set_query_contexts :: "(string \<Rightarrow> string \<Rightarrow> bool) \<Rightarrow> CoverageData \<Rightarrow> string list option \<Rightarrow> (error \<times> CoverageData) + CoverageData" where
  "set_query_contexts re_search s contexts =
     (let s0 = start_using s
      in case contexts of
           None \<Rightarrow> Inr (s0\<lparr>query_context_ids := None\<rparr>)
         | Some pats \<Rightarrow>
            if pats = [] then Inr (s0\<lparr>query_context_ids := None\<rparr>)
            else (case connect s0 of
                    Inl e \<Rightarrow> Inl e
                  | Inr (db, s1) \<Rightarrow>
                      Inr (s1\<lparr>query_context_ids :=
                                Some (map fst (filter (\<lambda>(i, c). \<exists>p \<in> set pats. re_search p c)
                                                 (context_tbl db)))\<rparr>)))"

text \<open>The clause \<^verbatim>\<open>and context_id in (...)\<close> that the queries add when a filter is set.\<close>

definition context_selected :: "CoverageData \<Rightarrow> nat \<Rightarrow> bool" where
  "context_selected s cid =
     (case query_context_ids s of None \<Rightarrow> True | Some ids \<Rightarrow> cid \<in> set ids)"

definition arcs :: "CoverageData \<Rightarrow> string \<Rightarrow> (error \<times> CoverageData) + ((int \<times> int) list option \<times> CoverageData)" where
  "arcs s filename =
     (case connect (start_using s) of
        Inl e \<Rightarrow> Inl e
      | Inr (db, s1) \<Rightarrow>
         (case file_map s1 filename of
            None \<Rightarrow> Inr (None, s1)
          | Some fid \<Rightarrow>
              Inr (Some (remdups (map (\<lambda>(f, c, fromno, tono). (fromno, tono))
                           (filter (\<lambda>(f, c, fromno, tono). f = fid \<and> context_selected s1 c)
                              (arc_tbl db)))), s1)))"

text \<open>The second half of \<^verbatim>\<open>lines\<close>: the numbits of the file, decoded into one set.\<close>

definition lines_from_bits :: "CoverageData \<Rightarrow> string \<Rightarrow> (error \<times> CoverageData) + (int list option \<times> CoverageData)" where
  "lines_from_bits s filename =
     (case connect s of
        Inl e \<Rightarrow> Inl e
      | Inr (db, s1) \<Rightarrow>
         (case file_map s1 filename of
            None \<Rightarrow> Inr (None, s1)
          | Some fid \<Rightarrow>
              Inr (Some (remdups (map int (concat (map (\<lambda>(f, c, nb). numbits_to_nums nb)
                           (filter (\<lambda>(f, c, nb). f = fid \<and> context_selected s1 c)
                              (line_bits_tbl db)))))), s1)))"

definition lines :: "CoverageData \<Rightarrow> string \<Rightarrow> (error \<times> CoverageData) + (int list option \<times> CoverageData)" where
  "lines s filename =
     (let s0 = start_using s
      in if has_arcs s0 then
           (case arcs s0 filename of
              Inl e \<Rightarrow> Inl e
            | Inr (Some arcs_found, s1) \<Rightarrow>
                Inr (Some (remdups (filter (\<lambda>l. l > 0)
                             (concat (map (\<lambda>(fromno, tono). [fromno, tono]) arcs_found)))), s1)
            | Inr (None, s1) \<Rightarrow> lines_from_bits s1 filename)
         else lines_from_bits s0 filename)"

text \<open>\<^verbatim>\<open>lineno_contexts_map[lineno].add(context)\<close> on a dictionary kept in insertion order.\<close>

definition add_context :: "int \<Rightarrow> string \<Rightarrow> (int \<times> string list) list \<Rightarrow> (int \<times> string list) list" where
  "add_context lineno context m =
     (case map_of m lineno of
        None \<Rightarrow> m @ [(lineno, [context])]
      | Some cs \<Rightarrow> AList.update lineno (if context \<in> set cs then cs else cs @ [context]) m)"

definition contexts_by_lineno :: "CoverageData \<Rightarrow> string \<Rightarrow> (error \<times> CoverageData) + ((int \<times> string list) list \<times> CoverageData)" where
  "contexts_by_lineno s filename =
     (case connect (start_using s) of
        Inl e \<Rightarrow> Inl e
      | Inr (db, s1) \<Rightarrow>
         (case file_map s1 filename of
            None \<Rightarrow> Inr ([], s1)
          | Some fid \<Rightarrow>
             if has_arcs s1 then
               Inr (fold (\<lambda>(fromno, tono, context) m.
                            (let m1 = (if fromno > 0 then add_context fromno context m else m)
                             in if tono > 0 then add_context tono context m1 else m1))
                      (concat (map (\<lambda>(f, c, fromno, tono).
                                      map (\<lambda>(i, context). (fromno, tono, context))
                                        (filter (\<lambda>(i, context). i = c) (context_tbl db)))
                                 (filter (\<lambda>(f, c, fromno, tono). f = fid \<and> context_selected s1 c)
                                    (arc_tbl db))))
                      [], s1)
             else
               Inr (fold (\<lambda>(nb, context) m.
                            fold (\<lambda>lineno. add_context (int lineno) context) (numbits_to_nums nb) m)
                      (concat (map (\<lambda>(f, c, nb).
                                      map (\<lambda>(i, context). (nb, context))
                                        (filter (\<lambda>(i, context). i = c) (context_tbl db)))
                                 (filter (\<lambda>(f, c, nb). f = fid \<and> context_selected s1 c)
                                    (line_bits_tbl db))))
                      [], s1)))"

subsection \<open>Merging another store\<close>

text \<open>A Python dictionary built from the rows \<open>(id, name)\<close> of a table, keyed by name.\<close>

definition ids_by_name :: "(nat \<times> string) list \<Rightarrow> (string \<times> nat) list" where
  "ids_by_name tbl = fold (\<lambda>(i, n) d. AList.update n i d) tbl []"

text \<open>What \<^verbatim>\<open>update\<close> collects from the other store before it writes anything.\<close>

record other_rows =
  o_files :: "(string \<times> string) list"
  o_contexts :: "string list"
  o_arcs :: "(string \<times> string \<times> int \<times> int) list"
  o_lines :: "((string \<times> string) \<times> numbits) list"
  o_tracers :: "(string \<times> string) list"

text \<open>\<^verbatim>\<open>lines[key] = numbits\<close>, after the union with an earlier value for the same key.\<close>

definition collect_line :: "(string \<times> string) list \<Rightarrow> string \<times> string \<times> numbits \<Rightarrow> ((string \<times> string) \<times> numbits) list option \<Rightarrow> ((string \<times> string) \<times> numbits) list option" where
  "collect_line files row acc =
     (case row of (path, context, nb) \<Rightarrow>
        (case acc of
           None \<Rightarrow> None
         | Some lns \<Rightarrow>
            (case map_of files path of
               None \<Rightarrow> None
             | Some file \<Rightarrow>
                 Some (AList.update (file, context)
                         (case map_of lns (file, context) of
                            Some old \<Rightarrow> numbits_union old nb
                          | None \<Rightarrow> nb) lns))))"

text \<open>
  The first half of \<^verbatim>\<open>update\<close>: the five queries on the other store's database.
  \<open>None\<close> is a \<^verbatim>\<open>KeyError\<close> of \<^verbatim>\<open>files[path]\<close>.
\<close>

definition read_other :: "(string \<Rightarrow> string) \<Rightarrow> database \<Rightarrow> other_rows option" where
  "read_other map_path db =
     (let files = fold (\<lambda>(i, path) d. AList.update path (map_path path) d) (file_tbl db) [];
          contexts = map snd (context_tbl db);
          arc_join = concat (map (\<lambda>(f, c, fromno, tono).
                        concat (map (\<lambda>(fi, path).
                          map (\<lambda>(ci, context). (path, context, fromno, tono))
                            (filter (\<lambda>(ci, context). ci = c) (context_tbl db)))
                          (filter (\<lambda>(fi, path). fi = f) (file_tbl db))))
                      (arc_tbl db));
          line_join = concat (map (\<lambda>(f, c, nb).
                        concat (map (\<lambda>(fi, path).
                          map (\<lambda>(ci, context). (path, context, nb))
                            (filter (\<lambda>(ci, context). ci = c) (context_tbl db)))
                          (filter (\<lambda>(fi, path). fi = f) (file_tbl db))))
                      (line_bits_tbl db));
          tracer_join = concat (map (\<lambda>(f, tracer).
                          map (\<lambda>(fi, path). (path, tracer))
                            (filter (\<lambda>(fi, path). fi = f) (file_tbl db)))
                        (tracer_tbl db))
      in case those (map (\<lambda>(path, context, fromno, tono).
                            map_option (\<lambda>file. (file, context, fromno, tono)) (map_of files path))
                       arc_join) of
           None \<Rightarrow> None
         | Some arcs_found \<Rightarrow>
            (case fold (collect_line files) line_join (Some []) of
               None \<Rightarrow> None
             | Some lns \<Rightarrow>
                (case those (map (\<lambda>(path, tracer).
                                    map_option (\<lambda>file. (file, tracer)) (map_of files path))
                               tracer_join) of
                   None \<Rightarrow> None
                 | Some tracer_items \<Rightarrow>
                     Some \<lparr>o_files = files, o_contexts = contexts, o_arcs = arcs_found,
                           o_lines = lns,
                           o_tracers = fold (\<lambda>(file, tracer) d. AList.update file tracer d)
                                         tracer_items []\<rparr>)))"

text \<open>The loop that prepares \<^verbatim>\<open>tracer_map\<close> and fails on a conflict.\<close>

fun tracer_check :: "(string \<times> string) list \<Rightarrow> (string \<times> string) list \<Rightarrow> string list \<Rightarrow> (string \<times> string) list \<Rightarrow> error + (string \<times> string) list" where
  "tracer_check this_tracers tracers [] tracer_map = Inr tracer_map"
| "tracer_check this_tracers tracers (path # rest) tracer_map =
     (let this_tracer = map_of this_tracers path;
          other_tracer = (case map_of tracers path of None \<Rightarrow> [] | Some t \<Rightarrow> t)
      in if this_tracer \<noteq> None \<and> this_tracer \<noteq> Some other_tracer
         then Inl (DataError_conflicting_tracer path
                     (case this_tracer of Some t \<Rightarrow> t | None \<Rightarrow> []) other_tracer)
         else tracer_check this_tracers tracers rest (AList.update path other_tracer tracer_map))"

text \<open>\<^verbatim>\<open>if arcs:\<close> with its body.\<close>

definition merge_arcs :: "CoverageData \<Rightarrow> (string \<times> nat) list \<Rightarrow> (string \<times> nat) list \<Rightarrow> (string \<times> string \<times> int \<times> int) list \<Rightarrow> (error \<times> CoverageData) + CoverageData" where
  "merge_arcs s file_ids context_ids arcs_found =
     (if arcs_found = [] then Inr s
      else (case choose_lines_or_arcs s False True of
              Inl e \<Rightarrow> Inl e
            | Inr s1 \<Rightarrow>
               (case those (map (\<lambda>(file, context, fromno, tono).
                                   (case map_of file_ids file of
                                      None \<Rightarrow> None
                                    | Some fid \<Rightarrow> map_option (\<lambda>cid. (fid, cid, fromno, tono))
                                                   (map_of context_ids context)))
                              arcs_found) of
                  None \<Rightarrow> Inl (KeyError, s1)
                | Some arc_rows \<Rightarrow>
                   (case dbs s1 of
                      None \<Rightarrow> Inl (ProgrammingError, s1)
                    | Some db \<Rightarrow>
                        Inr (s1\<lparr>dbs := Some (db\<lparr>arc_tbl :=
                                  fold insert_or_ignore_arc arc_rows (arc_tbl db)\<rparr>)\<rparr>)))))"

text \<open>
  One entry of \<^verbatim>\<open>lines\<close> as the row written for it: the ids of its key, and its numbits
  joined with the row this store already holds for those ids.
\<close>

definition line_row :: "(string \<times> nat) list \<Rightarrow> (string \<times> nat) list \<Rightarrow> (nat \<times> nat \<times> numbits) list \<Rightarrow> (string \<times> string) \<times> numbits \<Rightarrow> (nat \<times> nat \<times> numbits) option" where
  "line_row file_ids context_ids tbl item =
     (case item of ((file, context), nb) \<Rightarrow>
        (case map_of file_ids file of
           None \<Rightarrow> None
         | Some fid \<Rightarrow>
            (case map_of context_ids context of
               None \<Rightarrow> None
             | Some cid \<Rightarrow>
                 Some (fid, cid,
                       (case select_numbits fid cid tbl of
                          [] \<Rightarrow> nb
                        | existing # _ \<Rightarrow> numbits_union nb existing)))))"

text \<open>\<^verbatim>\<open>if lines:\<close> with its body.\<close>

definition merge_lines :: "CoverageData \<Rightarrow> (string \<times> nat) list \<Rightarrow> (string \<times> nat) list \<Rightarrow> ((string \<times> string) \<times> numbits) list \<Rightarrow> (error \<times> CoverageData) + CoverageData" where
  "merge_lines s file_ids context_ids lns =
     (if lns = [] then Inr s
      else (case choose_lines_or_arcs s True False of
              Inl e \<Rightarrow> Inl e
            | Inr s1 \<Rightarrow>
               (case dbs s1 of
                  None \<Rightarrow> Inl (ProgrammingError, s1)
                | Some db \<Rightarrow>
                   (case those (map (line_row file_ids context_ids (line_bits_tbl db)) lns) of
                      None \<Rightarrow> Inl (KeyError, s1)
                    | Some line_rows \<Rightarrow>
                        Inr (s1\<lparr>dbs := Some (db\<lparr>line_bits_tbl :=
                                  fold (\<lambda>(fid, cid, nb). replace_line_bits fid cid nb) line_rows
                                       (line_bits_tbl db)\<rparr>)\<rparr>)))))"

text \<open>The last statement of the block: the rows of \<^verbatim>\<open>tracer_map\<close>.\<close>

definition merge_tracers :: "CoverageData \<Rightarrow> (string \<times> nat) list \<Rightarrow> (string \<times> string) list \<Rightarrow> (error \<times> CoverageData) + CoverageData" where
  "merge_tracers s file_ids tracer_map =
     (case those (map (\<lambda>(filename, tracer).
                         map_option (\<lambda>fid. (fid, tracer)) (map_of file_ids filename))
                    tracer_map) of
        None \<Rightarrow> Inl (KeyError, s)
      | Some tracer_rows \<Rightarrow>
         (case dbs s of
            None \<Rightarrow> Inl (ProgrammingError, s)
          | Some db \<Rightarrow>
              Inr (s\<lparr>dbs := Some (db\<lparr>tracer_tbl :=
                        fold insert_or_ignore_tracer tracer_rows (tracer_tbl db)\<rparr>)\<rparr>)))"

text \<open>The body of \<^verbatim>\<open>with self._connect() as con:\<close> in \<^verbatim>\<open>update\<close>.\<close>

definition merge_rows :: "CoverageData \<Rightarrow> (string \<Rightarrow> string) \<Rightarrow> other_rows \<Rightarrow> (error \<times> CoverageData) + CoverageData" where
  "merge_rows s map_path rows =
     (case dbs s of
        None \<Rightarrow> Inl (ProgrammingError, s)
      | Some db \<Rightarrow>
         (let this_tracers =
                fold (\<lambda>(path, tracer) d. AList.update (map_path path) tracer d)
                  (concat (map (\<lambda>(f, tracer).
                             map (\<lambda>(fi, path). (path, tracer))
                               (filter (\<lambda>(fi, path). fi = f) (file_tbl db)))
                           (tracer_tbl db)))
                  (fold (\<lambda>(i, path) d. AList.update path [] d) (file_tbl db) []);
              ftbl = fold insert_or_ignore_name (map snd (o_files rows)) (file_tbl db);
              file_ids = ids_by_name ftbl;
              ctbl = fold insert_or_ignore_name (o_contexts rows) (context_tbl db);
              context_ids = ids_by_name ctbl;
              s1 = s\<lparr>dbs := Some (db\<lparr>file_tbl := ftbl, context_tbl := ctbl\<rparr>),
                     file_map := file_map s ++ map_of file_ids\<rparr>
          in case tracer_check this_tracers (o_tracers rows) (map snd (o_files rows)) [] of
               Inl e \<Rightarrow> Inl (e, s1)
             | Inr tracer_map \<Rightarrow>
                (case merge_arcs s1 file_ids context_ids (o_arcs rows) of
                   Inl e \<Rightarrow> Inl e
                 | Inr s2 \<Rightarrow>
                    (case merge_lines s2 file_ids context_ids (o_lines rows) of
                       Inl e \<Rightarrow> Inl e
                     | Inr s3 \<Rightarrow> merge_tracers s3 file_ids tracer_map))))"

text \<open>
  \<^verbatim>\<open>update(other_data, map_path)\<close>. Both objects change, so both are returned, this
  store first; \<open>map_path\<close> is \<open>None\<close> for Python's \<^verbatim>\<open>None\<close>.
\<close>

definition update :: "CoverageData \<Rightarrow> CoverageData \<Rightarrow> (string \<Rightarrow> string) option \<Rightarrow> (error \<times> CoverageData \<times> CoverageData) + (CoverageData \<times> CoverageData)" where
  "update s other_data map_path =
     (if has_lines s \<and> has_arcs other_data then Inl (DataError_combine_arc_with_line, s, other_data)
      else if has_arcs s \<and> has_lines other_data then Inl (DataError_combine_line_with_arc, s, other_data)
      else
        (let mp = (case map_path of None \<Rightarrow> (\<lambda>p. p) | Some f \<Rightarrow> f);
             s0 = start_using s
         in case read other_data of
              Inl (e, o1) \<Rightarrow> Inl (e, s0, o1)
            | Inr o1 \<Rightarrow>
               (case connect o1 of
                  Inl (e, o2) \<Rightarrow> Inl (e, s0, o2)
                | Inr (odb, o2) \<Rightarrow>
                   (case read_other mp odb of
                      None \<Rightarrow> Inl (KeyError, s0, o2)
                    | Some rows \<Rightarrow>
                       (case connect s0 of
                          Inl (e, s1) \<Rightarrow> Inl (e, s1, o2)
                        | Inr (db, s1) \<Rightarrow>
                           (case rollback s1 (merge_rows s1 mp rows) of
                              Inl (e, s2) \<Rightarrow> Inl (e, s2, o2)
                            | Inr s2 \<Rightarrow>
                               if \<not> no_disk s2
                               then (case read (reset s2) of
                                       Inl (e, s3) \<Rightarrow> Inl (e, s3, o2)
                                     | Inr s3 \<Rightarrow> Inr (s3, o2))
                               else Inr (s2, o2)))))))"

section \<open>Sequences of calls\<close>

text \<open>
  The state of the object after a call, whether the call returned or raised; the value a
  query returned is dropped.
\<close>

definition after :: "(error \<times> CoverageData) + CoverageData \<Rightarrow> CoverageData" where
  "after r = (case r of Inl (e, s) \<Rightarrow> s | Inr s \<Rightarrow> s)"

definition after_query :: "(error \<times> CoverageData) + ('a \<times> CoverageData) \<Rightarrow> CoverageData" where
  "after_query r = (case r of Inl (e, s) \<Rightarrow> s | Inr (a, s) \<Rightarrow> s)"

definition after_update :: "(error \<times> CoverageData \<times> CoverageData) + (CoverageData \<times> CoverageData) \<Rightarrow> CoverageData" where
  "after_update r = (case r of Inl (e, s, other_data) \<Rightarrow> s | Inr (s, other_data) \<Rightarrow> s)"

text \<open>The public methods, with their arguments.\<close>

datatype op =
    Set_context "string option"
  | Add_lines "(string \<times> nat list) list"
  | Add_arcs "(string \<times> (int \<times> int) list) list"
  | Add_file_tracers "(string \<times> string) list"
  | Touch_files "string list" "string option"
  | Purge_files "string list"
  | Update CoverageData "(string \<Rightarrow> string) option"
  | Erase
  | Read
  | Dumps
  | Loads "byte list \<Rightarrow> string option" "string \<Rightarrow> database \<Rightarrow> database option" "byte list"
  | Measured_contexts
  | File_tracer string
  | Set_query_context string
  | Set_query_contexts "string \<Rightarrow> string \<Rightarrow> bool" "string list option"
  | Lines string
  | Arcs string
  | Contexts_by_lineno string

fun apply_op :: "CoverageData \<Rightarrow> op \<Rightarrow> CoverageData" where
  "apply_op s (Set_context context) = set_context s context"
| "apply_op s (Add_lines line_data) = after (add_lines s line_data)"
| "apply_op s (Add_arcs arc_data) = after (add_arcs s arc_data)"
| "apply_op s (Add_file_tracers file_tracers) = after (add_file_tracers s file_tracers)"
| "apply_op s (Touch_files filenames plugin_name) = after (touch_files s filenames plugin_name)"
| "apply_op s (Purge_files filenames) = after (purge_files s filenames)"
| "apply_op s (Update other_data map_path) = after_update (update s other_data map_path)"
| "apply_op s Erase = erase s"
| "apply_op s Read = after (read s)"
| "apply_op s Dumps = after_query (dumps (\<lambda>db. []) (\<lambda>script. []) s)"
| "apply_op s (Loads decompress executescript data) = after (loads decompress executescript s data)"
| "apply_op s Measured_contexts = after_query (measured_contexts s)"
| "apply_op s (File_tracer filename) = after_query (file_tracer s filename)"
| "apply_op s (Set_query_context context) = after (set_query_context s context)"
| "apply_op s (Set_query_contexts re_search contexts) = after (set_query_contexts re_search s contexts)"
| "apply_op s (Lines filename) = after_query (lines s filename)"
| "apply_op s (Arcs filename) = after_query (arcs s filename)"
| "apply_op s (Contexts_by_lineno filename) = after_query (contexts_by_lineno s filename)"

fun run :: "CoverageData \<Rightarrow> op list \<Rightarrow> CoverageData" where
  "run s [] = s"
| "run s (x # xs) = run (apply_op s x) xs"

text \<open>
  A store in neither mode: no flag is set, and the database it is (or will be) connected
  to holds no \<^verbatim>\<open>has_arcs\<close> row.
\<close>

definition no_mode :: "CoverageData \<Rightarrow> bool" where
  "no_mode s \<longleftrightarrow>
     \<not> has_lines s \<and> \<not> has_arcs s \<and>
     (case connect (start_using s) of
        Inl e \<Rightarrow> False
      | Inr (db, s1) \<Rightarrow> map_of (meta db) ''has_arcs'' = None)"

definition mode_conflict :: "error \<Rightarrow> bool" where
  "mode_conflict e \<longleftrightarrow>
     e = DataError_lines_to_arcs \<or> e = DataError_arcs_to_lines \<or>
     e = DataError_combine_arc_with_line \<or> e = DataError_combine_line_with_arc"

text \<open>
  How the two mode flags may differ between two states of an object: they are as they
  were, or exactly one of them is set.
\<close>

definition flags_ok :: "CoverageData \<Rightarrow> CoverageData \<Rightarrow> bool" where
  "flags_ok s s' \<longleftrightarrow> (has_lines s' = has_lines s \<and> has_arcs s' = has_arcs s) \<or> has_lines s' \<noteq> has_arcs s'"

text \<open>
  Two states of one object that differ at most in the database it is connected to, in
  the cache of file ids and in the cached id of the current context.
\<close>

definition same_session :: "CoverageData \<Rightarrow> CoverageData \<Rightarrow> bool" where
  "same_session s s' \<longleftrightarrow>
     no_disk s' = no_disk s \<and> coverage_version s' = coverage_version s \<and>
     disk_file s' = disk_file s \<and> have_used s' = have_used s \<and>
     has_lines s' = has_lines s \<and> has_arcs s' = has_arcs s \<and>
     current_context s' = current_context s \<and> query_context_ids s' = query_context_ids s"

text \<open>An object that has started using its database and holds a connection to it.\<close>

definition in_use :: "CoverageData \<Rightarrow> bool" where
  "in_use s \<longleftrightarrow> have_used s \<and> dbs s \<noteq> None"

section \<open>Properties of the codec\<close>

lemma set_numbits_to_nums:
  "set (numbits_to_nums bs) = {n. n div 8 < length bs \<and> bit (bs ! (n div 8)) (n mod 8)}"
  apply (auto simp: numbits_to_nums_def)
  subgoal for n
    apply (rule bexI[of _ "n div 8"])
     apply (rule image_eqI[of _ _ "n mod 8"])
    by auto
  done

lemma length_numbits_union: "length (numbits_union a b) = max (length a) (length b)"
  by (induction a b rule: numbits_union.induct) auto

lemma bit_numbits_union:
  "i < max (length a) (length b) \<Longrightarrow>
   bit (numbits_union a b ! i) j \<longleftrightarrow>
     (i < length a \<and> bit (a ! i) j) \<or> (i < length b \<and> bit (b ! i) j)"
  by (induction a b arbitrary: i rule: numbits_union.induct)
     (auto simp: bit_or_iff nth_Cons split: nat.splits)

lemma set_numbits_union:
  "set (numbits_to_nums (numbits_union a b)) = set (numbits_to_nums a) \<union> set (numbits_to_nums b)"
  by (auto simp: set_numbits_to_nums length_numbits_union bit_numbits_union)

lemma numbits_union_idem: "numbits_union a a = a"
  by (induction a) auto

lemma numbits_union_absorb: "numbits_union a (numbits_union a b) = numbits_union a b"
  by (induction a b rule: numbits_union.induct) (simp_all add: numbits_union_idem)

lemma length_nums_to_numbits:
  "length (nums_to_numbits nums) = (if nums = [] then 0 else Max (set nums) div 8 + 1)"
  by (simp add: nums_to_numbits_def del: upt_Suc)

lemma bit_nums_to_numbits:
  "i < length (nums_to_numbits nums) \<Longrightarrow>
   bit (nums_to_numbits nums ! i) j \<longleftrightarrow> j < 8 \<and> i * 8 + j \<in> set nums"
  by (auto simp: nums_to_numbits_def bit_horner_sum_bit_word_iff simp del: upt_Suc split: if_splits)

lemma set_nums_to_numbits: "set (numbits_to_nums (nums_to_numbits nums)) = set nums"
proof -
  have le: "n div 8 < Max (set nums) div 8 + 1" if "n \<in> set nums" for n
  proof -
    have "n \<le> Max (set nums)" using that by simp
    then have "n div 8 \<le> Max (set nums) div 8" by (rule div_le_mono)
    then show ?thesis by simp
  qed
  have "n \<in> set (numbits_to_nums (nums_to_numbits nums)) \<longleftrightarrow> n \<in> set nums" for n
    using le[of n] by (auto simp: set_numbits_to_nums bit_nums_to_numbits length_nums_to_numbits)
  then show ?thesis by blast
qed

section \<open>The mode flags through every method\<close>

lemma flags_ok_refl [simp]: "flags_ok s s"
  by (simp add: flags_ok_def)

lemma flags_ok_trans: "flags_ok a b \<Longrightarrow> flags_ok b c \<Longrightarrow> flags_ok a c"
  by (auto simp: flags_ok_def)

lemma flags_ok_eq: "has_lines a' = has_lines a \<Longrightarrow> has_arcs a' = has_arcs a \<Longrightarrow> has_lines b' = has_lines b \<Longrightarrow> has_arcs b' = has_arcs b \<Longrightarrow> flags_ok a' b' = flags_ok a b"
  by (simp add: flags_ok_def)

lemma flags_ok_upd [simp]:
  "flags_ok s (t\<lparr>dbs := d\<rparr>) = flags_ok s t"
  "flags_ok s (t\<lparr>file_map := fm\<rparr>) = flags_ok s t"
  "flags_ok s (t\<lparr>have_used := hu\<rparr>) = flags_ok s t"
  "flags_ok s (t\<lparr>disk_file := df\<rparr>) = flags_ok s t"
  "flags_ok s (t\<lparr>current_context_id := ci\<rparr>) = flags_ok s t"
  "flags_ok s (t\<lparr>query_context_ids := qi\<rparr>) = flags_ok s t"
  "flags_ok (s\<lparr>dbs := d\<rparr>) t = flags_ok s t"
  "flags_ok (s\<lparr>file_map := fm\<rparr>) t = flags_ok s t"
  "flags_ok (s\<lparr>have_used := hu\<rparr>) t = flags_ok s t"
  "flags_ok (s\<lparr>disk_file := df\<rparr>) t = flags_ok s t"
  "flags_ok (s\<lparr>current_context_id := ci\<rparr>) t = flags_ok s t"
  "flags_ok (s\<lparr>query_context_ids := qi\<rparr>) t = flags_ok s t"
  by (simp_all add: flags_ok_def)

lemma flags_ok_start_using [simp]:
  "flags_ok s (start_using t) = flags_ok s t" "flags_ok (start_using s) t = flags_ok s t"
  "flags_ok s (reset t) = flags_ok s t" "flags_ok (reset s) t = flags_ok s t"
  "flags_ok s (erase t) = flags_ok s t" "flags_ok (erase s) t = flags_ok s t"
  by (simp_all add: flags_ok_def start_using_def erase_def reset_def Let_def)

lemma after_simps [simp]:
  "after (Inl (e, s)) = s" "after (Inr s) = s"
  "after_query (Inl (e, s)) = s" "after_query (Inr (x, s)) = s"
  "after_update (Inl (e, s, t)) = s" "after_update (Inr (s, t)) = s"
  by (simp_all add: after_def after_query_def after_update_def)

lemma bind_pp:
  "P (after r) \<Longrightarrow> (\<And>s1. P s1 \<Longrightarrow> P (after (g s1))) \<Longrightarrow>
   P (after (case r of Inl e \<Rightarrow> Inl e | Inr s1 \<Rightarrow> g s1))"
  by (cases r) auto

lemma bind_qp:
  "P (after_query r) \<Longrightarrow> (\<And>x s1. P s1 \<Longrightarrow> P (after (g x s1))) \<Longrightarrow>
   P (after (case r of Inl e \<Rightarrow> Inl e | Inr (x, s1) \<Rightarrow> g x s1))"
  by (cases r) auto

lemma bind_pq:
  "P (after r) \<Longrightarrow> (\<And>s1. P s1 \<Longrightarrow> P (after_query (g s1))) \<Longrightarrow>
   P (after_query (case r of Inl e \<Rightarrow> Inl e | Inr s1 \<Rightarrow> g s1))"
  by (cases r) auto

lemma bind_qq:
  "P (after_query r) \<Longrightarrow> (\<And>x s1. P s1 \<Longrightarrow> P (after_query (g x s1))) \<Longrightarrow>
   P (after_query (case r of Inl e \<Rightarrow> Inl e | Inr (x, s1) \<Rightarrow> g x s1))"
  by (cases r) auto

lemmas fbind = bind_pp[where P="flags_ok a"] bind_qp[where P="flags_ok a"]
  bind_pq[where P="flags_ok a"] bind_qq[where P="flags_ok a"] for a

lemma read_db_flags: "flags_ok a s \<Longrightarrow> flags_ok a (after (read_db s))"
  by (auto simp: read_db_def load_has_arcs_def flags_ok_def split: option.splits sum.splits)

lemma open_db_flags: "flags_ok a s \<Longrightarrow> flags_ok a (after (open_db s))"
  by (auto simp: open_db_def intro!: read_db_flags)

lemma connect_flags: "flags_ok a s \<Longrightarrow> flags_ok a (after_query (connect s))"
  unfolding connect_def
  by (auto intro!: fbind open_db_flags split: option.splits)

lemma choose_flags: "flags_ok a s \<Longrightarrow> flags_ok a (after (choose_lines_or_arcs s l b))"
proof -
  assume a: "flags_ok a s"
  have "flags_ok a (s\<lparr>has_lines := l, has_arcs := b\<rparr>)" if "l \<noteq> b"
    using that by (auto simp: flags_ok_def)
  then show ?thesis using a
    unfolding choose_lines_or_arcs_def
    by (auto intro!: fbind connect_flags)
qed

lemma file_id_add_flags: "flags_ok a s \<Longrightarrow> flags_ok a (after_query (file_id_add s f))"
  unfolding file_id_add_def
  by (auto intro!: fbind connect_flags split: option.splits prod.splits)

lemma context_id_flags: "flags_ok a s \<Longrightarrow> flags_ok a (after_query (context_id s c))"
  unfolding context_id_def
  by (auto intro!: fbind connect_flags)

lemma set_context_id_flags: "flags_ok a s \<Longrightarrow> flags_ok a (after_query (set_context_id s))"
  unfolding set_context_id_def Let_def
  by (auto intro!: fbind connect_flags context_id_flags split: option.splits)

lemma file_tracer_flags: "flags_ok a s \<Longrightarrow> flags_ok a (after_query (file_tracer s f))"
  unfolding file_tracer_def
  by (auto intro!: fbind connect_flags split: option.splits)

lemma flags_ok_after_rollback [simp]: "flags_ok s (after (rollback s0 r)) = flags_ok s (after r)"
  by (auto simp: rollback_def split: sum.splits)

lemma add_lines_loop_flags: "flags_ok a s \<Longrightarrow> flags_ok a (after (add_lines_loop cid s ld))"
proof (induction ld arbitrary: s)
  case Nil then show ?case by simp
next
  case (Cons x ld)
  obtain filename linenos where x: "x = (filename, linenos)" by (cases x)
  show ?case unfolding x add_lines_loop.simps
    apply (rule bind_qp[where P="flags_ok a"])
     apply (rule file_id_add_flags[OF Cons.prems])
    apply (simp add: Cons.IH Let_def split: option.splits)
    done
qed

lemma add_arcs_loop_flags: "flags_ok a s \<Longrightarrow> flags_ok a (after (add_arcs_loop cid s ld))"
proof (induction ld arbitrary: s)
  case Nil then show ?case by simp
next
  case (Cons x ld)
  obtain filename arcs where x: "x = (filename, arcs)" by (cases x)
  show ?case
  proof (cases "arcs = []")
    case True
    then show ?thesis using Cons by (simp add: x)
  next
    case False
    show ?thesis unfolding x add_arcs_loop.simps using False
      apply (simp only: if_False)
      apply (rule bind_qp[where P="flags_ok a"])
       apply (rule file_id_add_flags[OF Cons.prems])
      apply (simp add: Cons.IH split: option.splits)
      done
  qed
qed

lemma add_file_tracers_loop_flags: "flags_ok a s \<Longrightarrow> flags_ok a (after (add_file_tracers_loop s ld))"
proof (induction ld arbitrary: s)
  case Nil then show ?case by simp
next
  case (Cons x ld)
  obtain filename plugin_name where x: "x = (filename, plugin_name)" by (cases x)
  show ?case unfolding x add_file_tracers_loop.simps
    apply (rule bind_qp[where P="flags_ok a"])
     apply (rule file_id_add_flags[OF Cons.prems])
    apply (rule bind_qp[where P="flags_ok a"])
     apply (erule file_tracer_flags)
    apply (simp add: Cons.IH split: option.splits)
    done
qed

lemma add_lines_flags: "flags_ok a s \<Longrightarrow> flags_ok a (after (add_lines s ld))"
  unfolding add_lines_def
  by (auto intro!: fbind choose_flags connect_flags set_context_id_flags add_lines_loop_flags)

lemma add_arcs_flags: "flags_ok a s \<Longrightarrow> flags_ok a (after (add_arcs s ld))"
  unfolding add_arcs_def
  by (auto intro!: fbind choose_flags connect_flags set_context_id_flags add_arcs_loop_flags)

lemma add_file_tracers_flags: "flags_ok a s \<Longrightarrow> flags_ok a (after (add_file_tracers s ld))"
  unfolding add_file_tracers_def
  by (auto intro!: fbind connect_flags add_file_tracers_loop_flags)

lemma touch_files_loop_flags: "flags_ok a s \<Longrightarrow> flags_ok a (after (touch_files_loop s fs pn))"
proof (induction fs arbitrary: s)
  case Nil then show ?case by simp
next
  case (Cons x ld)
  have step: "flags_ok a (after (case add_file_tracers s1 [(x, p)] of Inl e \<Rightarrow> Inl e
                 | Inr s2 \<Rightarrow> touch_files_loop s2 ld pn))" if "flags_ok a s1" for s1 p
    by (rule bind_pp[where P="flags_ok a"]) (auto intro: add_file_tracers_flags that Cons.IH)
  have rest: "flags_ok a (after (case pn of None \<Rightarrow> touch_files_loop s1 ld pn
               | Some p \<Rightarrow> if p = [] then touch_files_loop s1 ld pn
                   else case add_file_tracers s1 [(x, p)] of Inl e \<Rightarrow> Inl e
                        | Inr s2 \<Rightarrow> touch_files_loop s2 ld pn))" if "flags_ok a s1" for s1
    using that Cons.IH step by (cases pn) auto
  show ?case unfolding touch_files_loop.simps
    apply (rule bind_qp[where P="flags_ok a"])
     apply (rule file_id_add_flags[OF Cons.prems])
    apply (erule rest)
    done
qed

lemma touch_files_flags: "flags_ok a s \<Longrightarrow> flags_ok a (after (touch_files s fs pn))"
  unfolding touch_files_def
  by (auto intro!: fbind connect_flags touch_files_loop_flags)

lemma purge_files_loop_flags: "flags_ok a s \<Longrightarrow> flags_ok a (after (purge_files_loop lm s fs))"
proof (induction fs arbitrary: s)
  case Nil then show ?case by simp
next
  case (Cons x ld)
  show ?case using Cons.prems
    by (simp add: Cons.IH split: option.splits)
qed

lemma purge_files_flags: "flags_ok a s \<Longrightarrow> flags_ok a (after (purge_files s fs))"
  unfolding purge_files_def
  by (auto intro!: fbind connect_flags purge_files_loop_flags)

lemma read_flags: "flags_ok a s \<Longrightarrow> flags_ok a (after (read s))"
  unfolding read_def
  by (auto intro!: fbind connect_flags)

lemma loads_flags: "flags_ok a s \<Longrightarrow> flags_ok a (after (loads d x s data))"
  unfolding loads_def Let_def
  by (auto intro!: fbind read_db_flags split: option.splits)

lemma queries_flags:
  "flags_ok a s \<Longrightarrow> flags_ok a (after_query (dumps du co s))"
  "flags_ok a s \<Longrightarrow> flags_ok a (after_query (measured_contexts s))"
  "flags_ok a s \<Longrightarrow> flags_ok a (after (set_query_context s c))"
  "flags_ok a s \<Longrightarrow> flags_ok a (after (set_query_contexts re s cs))"
  "flags_ok a s \<Longrightarrow> flags_ok a (after_query (arcs s f))"
  "flags_ok a s \<Longrightarrow> flags_ok a (after_query (lines_from_bits s f))"
  "flags_ok a s \<Longrightarrow> flags_ok a (after_query (contexts_by_lineno s f))"
  unfolding dumps_def measured_contexts_def set_query_context_def set_query_contexts_def
       arcs_def contexts_by_lineno_def lines_from_bits_def Let_def
  by (auto intro!: fbind connect_flags split: option.splits)

lemma lines_flags: "flags_ok a s \<Longrightarrow> flags_ok a (after_query (lines s f))"
  unfolding lines_def Let_def
  by (auto intro!: fbind queries_flags split: option.splits)

lemma merge_flags:
  "flags_ok a s \<Longrightarrow> flags_ok a (after (merge_arcs s fi ci ar))"
  "flags_ok a s \<Longrightarrow> flags_ok a (after (merge_lines s fi ci ln))"
  "flags_ok a s \<Longrightarrow> flags_ok a (after (merge_tracers s fi tm))"
  unfolding merge_arcs_def merge_lines_def merge_tracers_def
  by (auto intro!: fbind choose_flags split: option.splits)

lemma merge_rows_flags: "flags_ok a s \<Longrightarrow> flags_ok a (after (merge_rows s mp rows))"
proof (cases "dbs s")
  case None
  assume "flags_ok a s" then show ?thesis using None by (simp add: merge_rows_def)
next
  case (Some db)
  assume a: "flags_ok a s"
  define s1 where "s1 = s\<lparr>dbs := Some (db\<lparr>file_tbl := fold insert_or_ignore_name (map snd (o_files rows)) (file_tbl db),
        context_tbl := fold insert_or_ignore_name (o_contexts rows) (context_tbl db)\<rparr>),
      file_map := file_map s ++ map_of (ids_by_name (fold insert_or_ignore_name (map snd (o_files rows)) (file_tbl db)))\<rparr>"
  have s1: "flags_ok a s1" using a by (simp add: s1_def)
  have rest: "flags_ok a (after (case merge_arcs s1 fi ci ar of Inl e \<Rightarrow> Inl e
                 | Inr s2 \<Rightarrow> (case merge_lines s2 fi ci ln of Inl e \<Rightarrow> Inl e
                     | Inr s3 \<Rightarrow> merge_tracers s3 fi tm)))" for fi ci ar ln tm
    by (intro bind_pp[where P="flags_ok a"] merge_flags s1)
  show ?thesis
    unfolding merge_rows_def Let_def using Some s1 rest
    by (simp add: s1_def split: sum.split)
qed

lemma update_flags: "flags_ok a s \<Longrightarrow> flags_ok a (after_update (update s other mp))"
proof -
  assume a: "flags_ok a s"
  have 1: "flags_ok a (after (rollback s1 (merge_rows s1 mp' rows)))" if "flags_ok a s1" for s1 mp' rows
    using that merge_rows_flags[of a s1 mp' rows] by auto
  have 2: "flags_ok a (after (read (reset s2)))" if "flags_ok a s2" for s2
    using that by (auto intro!: read_flags)
  have 3: "flags_ok a (after_query (connect (start_using s)))"
    using a by (auto intro!: connect_flags)
  show ?thesis
  proof (cases "(has_lines s \<and> has_arcs other) \<or> (has_arcs s \<and> has_lines other)")
    case True
    then show ?thesis using a by (auto simp: update_def)
  next
    case False
    show ?thesis
    proof (cases "read other")
      case (Inl e)
      then show ?thesis using False a by (cases e) (simp add: update_def)
    next
      case (Inr o1)
      show ?thesis
      proof (cases "connect o1")
        case (Inl e)
        then show ?thesis using False a Inr by (cases e) (simp add: update_def)
      next
        case c: (Inr p)
        obtain odb o2 where p: "p = (odb, o2)" by (cases p)
        show ?thesis
        proof (cases "read_other (case mp of None \<Rightarrow> (\<lambda>p. p) | Some f \<Rightarrow> f) odb")
          case None
          then show ?thesis using False a Inr c p by (simp add: update_def)
        next
          case (Some rows)
          show ?thesis
          proof (cases "connect (start_using s)")
            case (Inl e)
            then show ?thesis using False a Inr c p Some 3 by (cases e) (simp add: update_def)
          next
            case d: (Inr q)
            obtain db s1 where q: "q = (db, s1)" by (cases q)
            have s1: "flags_ok a s1" using 3 d q by simp
            show ?thesis
            proof (cases "rollback s1 (merge_rows s1 (case mp of None \<Rightarrow> (\<lambda>p. p) | Some f \<Rightarrow> f) rows)")
              case (Inl e)
              then show ?thesis using False a Inr c p Some d q 1[OF s1, of "case mp of None \<Rightarrow> (\<lambda>p. p) | Some f \<Rightarrow> f" rows]
                by (cases e) (simp add: update_def)
            next
              case m: (Inr s2)
              have s2: "flags_ok a s2" using 1[OF s1, of "case mp of None \<Rightarrow> (\<lambda>p. p) | Some f \<Rightarrow> f" rows] m by simp
              show ?thesis using False a Inr c p Some d q m s2 2[OF s2]
                by (cases "read (reset s2)") (auto simp: update_def)
            qed
          qed
        qed
      qed
    qed
  qed
qed

lemma set_context_flags: "flags_ok a s \<Longrightarrow> flags_ok a (set_context s c)"
  by (simp add: flags_ok_def set_context_def)

lemma apply_op_flags: "flags_ok a s \<Longrightarrow> flags_ok a (apply_op s x)"
  by (cases x) (simp_all add: add_lines_flags add_arcs_flags add_file_tracers_flags touch_files_flags
     purge_files_flags update_flags read_flags loads_flags queries_flags lines_flags file_tracer_flags
     set_context_flags)

lemma run_flags: "flags_ok a s \<Longrightarrow> flags_ok a (run s xs)"
  by (induction xs arbitrary: s) (auto intro: apply_op_flags)

section \<open>Objects that are connected to their database\<close>

lemma start_using_used [simp]: "have_used s \<Longrightarrow> start_using s = s"
  by (simp add: start_using_def)

lemma have_used_start_using [simp]: "have_used (start_using s)"
  by (simp add: start_using_def)

lemma connect_Some [simp]: "dbs s = Some db \<Longrightarrow> connect s = Inr (db, s)"
  by (simp add: connect_def)

lemma same_session_refl [simp]: "same_session s s"
  by (simp add: same_session_def)

lemma same_session_trans: "same_session a b \<Longrightarrow> same_session b c \<Longrightarrow> same_session a c"
  by (simp add: same_session_def)

lemma same_session_upd [simp]:
  "same_session s (t\<lparr>dbs := d\<rparr>) = same_session s t"
  "same_session s (t\<lparr>file_map := fm\<rparr>) = same_session s t"
  "same_session s (t\<lparr>current_context_id := ci\<rparr>) = same_session s t"
  "same_session (s\<lparr>dbs := d\<rparr>) t = same_session s t"
  "same_session (s\<lparr>file_map := fm\<rparr>) t = same_session s t"
  "same_session (s\<lparr>current_context_id := ci\<rparr>) t = same_session s t"
  by (simp_all add: same_session_def)

lemma load_has_arcs_no_row:
  "map_of (meta db) ''has_arcs'' = None \<Longrightarrow> load_has_arcs db s = Some s"
  by (simp add: load_has_arcs_def)

lemma read_db_Inl: "read_db s = Inl (e, s1) \<Longrightarrow> s1 = s"
  by (simp add: read_db_def split: option.splits sum.splits)

lemma read_db_Inr:
  assumes "read_db s = Inr s1"
  shows "\<exists>db db1. dbs s = Some db \<and> check_schema (coverage_version s) db = Inr db1 \<and> dbs s1 = Some db1 \<and>
           (map_of (meta db1) ''has_arcs'' = None \<longrightarrow>
              s1 = s\<lparr>dbs := Some db1, file_map := load_file_map (file_tbl db1) (file_map s)\<rparr>)"
  using assms unfolding read_db_def
  by (auto split: option.splits sum.splits simp: load_has_arcs_no_row)

lemma read_db_no_row:
  "dbs s = Some db \<Longrightarrow> check_schema (coverage_version s) db = Inr db1 \<Longrightarrow> map_of (meta db1) ''has_arcs'' = None \<Longrightarrow>
   read_db s = Inr (s\<lparr>dbs := Some db1, file_map := load_file_map (file_tbl db1) (file_map s)\<rparr>)"
  by (simp add: read_db_def load_has_arcs_no_row)

lemma connect_Inr_dbs: "connect s = Inr (db, s1) \<Longrightarrow> dbs s1 = Some db"
  by (auto simp: connect_def split: option.splits sum.splits)

text \<open>A connection made to a database without a has_arcs row: the exact result.\<close>

lemma connect_no_row:
  assumes "connect s = Inr (db, s1)" "map_of (meta db) ''has_arcs'' = None"
  shows "s1 = s\<lparr>dbs := Some db, file_map := (if dbs s = None then load_file_map (file_tbl db) (file_map s) else file_map s)\<rparr>"
proof (cases "dbs s")
  case (Some d)
  then show ?thesis using assms by simp
next
  case None
  then obtain s2 where o: "open_db s = Inr s2" using assms
    by (auto simp: connect_def split: sum.splits)
  then have 2: "dbs s2 = Some db" "s1 = s2" using assms None
    by (auto simp: connect_def split: option.splits)
  show ?thesis using read_db_Inr[OF o[unfolded open_db_def]] 2 assms(2) None
    by auto
qed

lemma connect_flag_update:
  assumes "connect s = Inr (db, s1)" "map_of (meta db) ''has_arcs'' = None"
  shows "connect (s\<lparr>has_lines := l, has_arcs := a\<rparr>) = Inr (db, s1\<lparr>has_lines := l, has_arcs := a\<rparr>)"
proof (cases "dbs s")
  case (Some d)
  then show ?thesis using assms by simp
next
  case None
  then obtain s2 where o: "open_db s = Inr s2" using assms
    by (auto simp: connect_def split: sum.splits)
  then have 2: "dbs s2 = Some db" "s1 = s2" using assms None
    by (auto simp: connect_def split: option.splits)
  obtain d where d: "check_schema (coverage_version s) d = Inr db"
       "read_db (s\<lparr>dbs := Some d\<rparr>) = Inr s2"
       "open_db (s\<lparr>has_lines := l, has_arcs := a\<rparr>) = read_db (s\<lparr>has_lines := l, has_arcs := a, dbs := Some d\<rparr>)"
    using read_db_Inr[OF o[unfolded open_db_def]] 2 o unfolding open_db_def by auto
  have "read_db (s\<lparr>has_lines := l, has_arcs := a, dbs := Some d\<rparr>) = Inr (s2\<lparr>has_lines := l, has_arcs := a\<rparr>)"
    using read_db_no_row[of "s\<lparr>has_lines := l, has_arcs := a, dbs := Some d\<rparr>" d db] d(1) assms(2)
      read_db_no_row[of "s\<lparr>dbs := Some d\<rparr>" d db] d(2)
    by simp
  then show ?thesis using None 2 d(3) by (simp add: connect_def)
qed


lemma meta_insert_or_ignore_new:
  assumes "map_of tbl k = None"
  shows "map_of (meta_insert_or_ignore k v tbl) k = Some v"
proof -
  have "k \<notin> fst ` set tbl" using assms by (simp add: map_of_eq_None_iff)
  then show ?thesis using assms by (simp add: meta_insert_or_ignore_def map_add_def)
qed

lemma choose_no_mode:
  assumes "connect s = Inr (db, s1)" "map_of (meta db) ''has_arcs'' = None"
    "\<not> has_lines s" "\<not> has_arcs s" "l \<noteq> a"
  shows "choose_lines_or_arcs s l a =
           Inr (s1\<lparr>has_lines := l, has_arcs := a,
                   dbs := Some (db\<lparr>meta := meta_insert_or_ignore ''has_arcs'' (if a then ''1'' else ''0'') (meta db)\<rparr>)\<rparr>)"
  using assms connect_flag_update[OF assms(1,2), where l=l and a=a]
  by (auto simp: choose_lines_or_arcs_def)

lemma select_id_None: "select_id name tbl = None \<longleftrightarrow> name \<notin> snd ` set tbl"
  by (auto simp: select_id_def find_None_iff image_iff)

lemma select_id_Some: "select_id name tbl = Some i \<Longrightarrow> (i, name) \<in> set tbl"
  by (auto simp: select_id_def find_Some_iff in_set_conv_nth)

lemma file_id_add_connected:
  assumes "dbs s = Some db"
  shows "file_id_add s f =
     (case file_map s f of
        Some fid \<Rightarrow> Inr (fid, s)
      | None \<Rightarrow> Inr (new_rowid (file_tbl db),
                     s\<lparr>dbs := Some (db\<lparr>file_tbl := filter (\<lambda>(i, n). n \<noteq> f) (file_tbl db) @ [(new_rowid (file_tbl db), f)]\<rparr>),
                       file_map := (file_map s)(f \<mapsto> new_rowid (file_tbl db))\<rparr>))"
  using assms by (simp add: file_id_add_def insert_or_replace_name_def Let_def split: option.splits)

lemma set_context_id_connected:
  assumes "dbs s = Some db" "have_used s"
  shows "set_context_id s =
     (let context = (case current_context s of None \<Rightarrow> [] | Some c \<Rightarrow> c)
      in case select_id context (context_tbl db) of
           Some cid \<Rightarrow> Inr (cid, s\<lparr>current_context_id := Some cid\<rparr>)
         | None \<Rightarrow> Inr (new_rowid (context_tbl db),
                        s\<lparr>dbs := Some (db\<lparr>context_tbl := context_tbl db @ [(new_rowid (context_tbl db), context)]\<rparr>),
                          current_context_id := Some (new_rowid (context_tbl db))\<rparr>))"
proof (cases "select_id (case current_context s of None \<Rightarrow> [] | Some c \<Rightarrow> c) (context_tbl db)")
  case None
  then have "(case current_context s of None \<Rightarrow> [] | Some c \<Rightarrow> c) \<notin> snd ` set (context_tbl db)"
    by (simp add: select_id_None)
  then show ?thesis using assms None
    by (simp add: set_context_id_def context_id_def Let_def insert_name_def)
next
  case (Some cid)
  then show ?thesis using assms
    by (simp add: set_context_id_def context_id_def Let_def)
qed

text \<open>One round of the loop of add_lines on a connected object.\<close>

lemma add_lines_loop_Cons:
  assumes "dbs s = Some db"
  shows "add_lines_loop cid s ((f, ls) # rest) =
     (let fid = (case file_map s f of Some i \<Rightarrow> i | None \<Rightarrow> new_rowid (file_tbl db));
          ftbl = (case file_map s f of Some i \<Rightarrow> file_tbl db
                  | None \<Rightarrow> filter (\<lambda>(i, n). n \<noteq> f) (file_tbl db) @ [(new_rowid (file_tbl db), f)]);
          nb = (case select_numbits fid cid (line_bits_tbl db) of
                  [] \<Rightarrow> nums_to_numbits ls
                | e # _ \<Rightarrow> numbits_union (nums_to_numbits ls) e)
      in add_lines_loop cid
           (s\<lparr>dbs := Some (db\<lparr>file_tbl := ftbl,
                                line_bits_tbl := replace_line_bits fid cid nb (line_bits_tbl db)\<rparr>),
               file_map := (file_map s)(f \<mapsto> fid)\<rparr>) rest)"
proof (cases "file_map s f")
  case None
  show ?thesis using assms None
    apply (simp add: file_id_add_connected Let_def)
    apply (rule arg_cong[where f="\<lambda>s. add_lines_loop cid s rest"])
    apply (rule CoverageData.equality)
              apply simp_all
    done
next
  case (Some i)
  have "(file_map s)(f \<mapsto> i) = file_map s" using Some by (auto simp: fun_eq_iff)
  then show ?thesis using assms Some
    by (simp add: file_id_add_connected Let_def)
qed

lemma add_lines_loop_frame:
  "dbs s = Some db \<Longrightarrow>
   \<exists>s' db'. add_lines_loop cid s ld = Inr s' \<and> same_session s s' \<and> dbs s' = Some db' \<and>
     current_context_id s' = current_context_id s \<and>
     meta db' = meta db \<and> schema_version db' = schema_version db \<and> context_tbl db' = context_tbl db \<and>
     arc_tbl db' = arc_tbl db \<and> tracer_tbl db' = tracer_tbl db"
proof (induction ld arbitrary: s db)
  case Nil
  then show ?case by simp
next
  case (Cons x ld)
  obtain f ls where x: "x = (f, ls)" by (cases x)
  define fid where "fid = (case file_map s f of Some i \<Rightarrow> i | None \<Rightarrow> new_rowid (file_tbl db))"
  define ftbl where "ftbl = (case file_map s f of Some i \<Rightarrow> file_tbl db
                  | None \<Rightarrow> filter (\<lambda>(i, n). n \<noteq> f) (file_tbl db) @ [(new_rowid (file_tbl db), f)])"
  define nb where "nb = (case select_numbits fid cid (line_bits_tbl db) of
                  [] \<Rightarrow> nums_to_numbits ls
                | e # _ \<Rightarrow> numbits_union (nums_to_numbits ls) e)"
  define db2 where "db2 = db\<lparr>file_tbl := ftbl, line_bits_tbl := replace_line_bits fid cid nb (line_bits_tbl db)\<rparr>"
  define s2 where "s2 = s\<lparr>dbs := Some db2, file_map := (file_map s)(f \<mapsto> fid)\<rparr>"
  have step: "add_lines_loop cid s (x # ld) = add_lines_loop cid s2 ld"
    unfolding x add_lines_loop_Cons[OF Cons.prems]
    by (simp add: Let_def s2_def db2_def nb_def ftbl_def fid_def)
  have d2: "dbs s2 = Some db2" by (simp add: s2_def)
  from Cons.IH[OF d2] obtain s' db' where
    r: "add_lines_loop cid s2 ld = Inr s'" "same_session s2 s'" "dbs s' = Some db'"
       "current_context_id s' = current_context_id s2"
       "meta db' = meta db2" "schema_version db' = schema_version db2" "context_tbl db' = context_tbl db2"
       "arc_tbl db' = arc_tbl db2" "tracer_tbl db' = tracer_tbl db2"
    by blast
  have "same_session s s'" using r(2) by (simp add: s2_def)
  moreover have "current_context_id s' = current_context_id s" using r(4) by (simp add: s2_def)
  moreover have "meta db' = meta db" "schema_version db' = schema_version db" "context_tbl db' = context_tbl db"
     "arc_tbl db' = arc_tbl db" "tracer_tbl db' = tracer_tbl db"
    using r(5-9) by (simp_all add: db2_def)
  ultimately show ?case using step r(1,3) by simp
qed

lemma flags_start_using [simp]:
  "has_lines (start_using s) = has_lines s" "has_arcs (start_using s) = has_arcs s"
  by (simp_all add: start_using_def erase_def reset_def Let_def)

lemma add_arcs_loop_Cons:
  assumes "dbs s = Some db" "pairs \<noteq> []"
  shows "add_arcs_loop cid s ((f, pairs) # rest) =
     (let fid = (case file_map s f of Some i \<Rightarrow> i | None \<Rightarrow> new_rowid (file_tbl db));
          ftbl = (case file_map s f of Some i \<Rightarrow> file_tbl db
                  | None \<Rightarrow> filter (\<lambda>(i, n). n \<noteq> f) (file_tbl db) @ [(new_rowid (file_tbl db), f)])
      in add_arcs_loop cid
           (s\<lparr>dbs := Some (db\<lparr>file_tbl := ftbl,
                                arc_tbl := fold (\<lambda>(fromno, tono). insert_or_ignore_arc (fid, cid, fromno, tono))
                                             pairs (arc_tbl db)\<rparr>),
               file_map := (file_map s)(f \<mapsto> fid)\<rparr>) rest)"
proof (cases "file_map s f")
  case None
  show ?thesis using assms None
    apply (simp add: file_id_add_connected Let_def)
    apply (rule arg_cong[where f="\<lambda>s. add_arcs_loop cid s rest"])
    apply (rule CoverageData.equality)
              apply simp_all
    done
next
  case (Some i)
  have "(file_map s)(f \<mapsto> i) = file_map s" using Some by (auto simp: fun_eq_iff)
  then show ?thesis using assms Some
    by (simp add: file_id_add_connected Let_def)
qed

lemma add_arcs_loop_frame:
  "dbs s = Some db \<Longrightarrow>
   \<exists>s' db'. add_arcs_loop cid s ld = Inr s' \<and> same_session s s' \<and> dbs s' = Some db' \<and>
     current_context_id s' = current_context_id s \<and>
     meta db' = meta db \<and> schema_version db' = schema_version db \<and> context_tbl db' = context_tbl db \<and>
     line_bits_tbl db' = line_bits_tbl db \<and> tracer_tbl db' = tracer_tbl db"
proof (induction ld arbitrary: s db)
  case Nil
  then show ?case by simp
next
  case (Cons x ld)
  obtain f pairs where x: "x = (f, pairs)" by (cases x)
  show ?case
  proof (cases "pairs = []")
    case True
    then show ?thesis using Cons.IH[OF Cons.prems] by (simp add: x)
  next
    case False
    define fid where "fid = (case file_map s f of Some i \<Rightarrow> i | None \<Rightarrow> new_rowid (file_tbl db))"
    define ftbl where "ftbl = (case file_map s f of Some i \<Rightarrow> file_tbl db
                  | None \<Rightarrow> filter (\<lambda>(i, n). n \<noteq> f) (file_tbl db) @ [(new_rowid (file_tbl db), f)])"
    define db2 where "db2 = db\<lparr>file_tbl := ftbl,
         arc_tbl := fold (\<lambda>(fromno, tono). insert_or_ignore_arc (fid, cid, fromno, tono)) pairs (arc_tbl db)\<rparr>"
    define s2 where "s2 = s\<lparr>dbs := Some db2, file_map := (file_map s)(f \<mapsto> fid)\<rparr>"
    have step: "add_arcs_loop cid s (x # ld) = add_arcs_loop cid s2 ld"
      unfolding x add_arcs_loop_Cons[OF Cons.prems False]
      by (simp add: Let_def s2_def db2_def ftbl_def fid_def)
    have d2: "dbs s2 = Some db2" by (simp add: s2_def)
    from Cons.IH[OF d2] obtain s' db' where
      r: "add_arcs_loop cid s2 ld = Inr s'" "same_session s2 s'" "dbs s' = Some db'"
       "current_context_id s' = current_context_id s2"
       "meta db' = meta db2" "schema_version db' = schema_version db2" "context_tbl db' = context_tbl db2"
       "line_bits_tbl db' = line_bits_tbl db2" "tracer_tbl db' = tracer_tbl db2"
      by blast
    have "same_session s s'" using r(2) by (simp add: s2_def)
    moreover have "current_context_id s' = current_context_id s" using r(4) by (simp add: s2_def)
    moreover have "meta db' = meta db" "schema_version db' = schema_version db" "context_tbl db' = context_tbl db"
       "line_bits_tbl db' = line_bits_tbl db" "tracer_tbl db' = tracer_tbl db"
      using r(5-9) by (simp_all add: db2_def)
    ultimately show ?thesis using step r(1,3) by simp
  qed
qed

text \<open>set_context_id on an object in use: it succeeds and touches only the context table.\<close>

lemma set_context_id_frame:
  assumes "dbs s = Some db" "have_used s"
  shows "\<exists>cid s' db'. set_context_id s = Inr (cid, s') \<and> same_session s s' \<and> dbs s' = Some db' \<and>
     file_map s' = file_map s \<and>
     meta db' = meta db \<and> schema_version db' = schema_version db \<and>
     file_tbl db' = file_tbl db \<and> line_bits_tbl db' = line_bits_tbl db \<and>
     arc_tbl db' = arc_tbl db \<and> tracer_tbl db' = tracer_tbl db"
  unfolding set_context_id_connected[OF assms] Let_def
  using assms(1) by (simp split: option.split)

text \<open>add_lines and add_arcs on an object in use whose mode allows the call.\<close>

lemma add_lines_in_use:
  assumes "dbs s = Some db" "have_used s" "has_lines s" "\<not> has_arcs s"
  shows "\<exists>s' db'. add_lines s ld = Inr s' \<and> same_session s s' \<and> dbs s' = Some db' \<and>
     meta db' = meta db \<and> schema_version db' = schema_version db \<and>
     arc_tbl db' = arc_tbl db \<and> tracer_tbl db' = tracer_tbl db"
proof -
  have c: "choose_lines_or_arcs s True False = Inr s"
    using assms by (simp add: choose_lines_or_arcs_def)
  show ?thesis
  proof (cases "ld = []")
    case True
    then show ?thesis using assms c by (simp add: add_lines_def)
  next
    case False
    from set_context_id_frame[OF assms(1,2)] obtain cid s3 db3 where
      3: "set_context_id s = Inr (cid, s3)" "same_session s s3" "dbs s3 = Some db3"
         "meta db3 = meta db" "schema_version db3 = schema_version db"
         "arc_tbl db3 = arc_tbl db" "tracer_tbl db3 = tracer_tbl db"
      by blast
    from add_lines_loop_frame[OF 3(3), of cid ld] obtain s' db' where
      4: "add_lines_loop cid s3 ld = Inr s'" "same_session s3 s'" "dbs s' = Some db'"
         "meta db' = meta db3" "schema_version db' = schema_version db3"
         "arc_tbl db' = arc_tbl db3" "tracer_tbl db' = tracer_tbl db3"
      by blast
    have "add_lines s ld = Inr s'"
      using assms c False 3(1) 4(1) by (simp add: add_lines_def rollback_def)
    then show ?thesis using 3 4 same_session_trans[OF 3(2) 4(2)] by simp
  qed
qed

lemma add_arcs_in_use:
  assumes "dbs s = Some db" "have_used s" "has_arcs s" "\<not> has_lines s"
  shows "\<exists>s' db'. add_arcs s ad = Inr s' \<and> same_session s s' \<and> dbs s' = Some db' \<and>
     meta db' = meta db \<and> schema_version db' = schema_version db \<and>
     line_bits_tbl db' = line_bits_tbl db \<and> tracer_tbl db' = tracer_tbl db"
proof -
  have c: "choose_lines_or_arcs s False True = Inr s"
    using assms by (simp add: choose_lines_or_arcs_def)
  show ?thesis
  proof (cases "ad = []")
    case True
    then show ?thesis using assms c by (simp add: add_arcs_def)
  next
    case False
    from set_context_id_frame[OF assms(1,2)] obtain cid s3 db3 where
      3: "set_context_id s = Inr (cid, s3)" "same_session s s3" "dbs s3 = Some db3"
         "meta db3 = meta db" "schema_version db3 = schema_version db"
         "line_bits_tbl db3 = line_bits_tbl db" "tracer_tbl db3 = tracer_tbl db"
      by blast
    from add_arcs_loop_frame[OF 3(3), of cid ad] obtain s' db' where
      4: "add_arcs_loop cid s3 ad = Inr s'" "same_session s3 s'" "dbs s' = Some db'"
         "meta db' = meta db3" "schema_version db' = schema_version db3"
         "line_bits_tbl db' = line_bits_tbl db3" "tracer_tbl db' = tracer_tbl db3"
      by blast
    have "add_arcs s ad = Inr s'"
      using assms c False 3(1) 4(1) by (simp add: add_arcs_def rollback_def)
    then show ?thesis using 3 4 same_session_trans[OF 3(2) 4(2)] by simp
  qed
qed

text \<open>The rejections: they come before anything is read or written.\<close>

lemma add_arcs_rejected: "has_lines s \<Longrightarrow> add_arcs s ad = Inl (DataError_arcs_to_lines, start_using s)"
  by (simp add: add_arcs_def choose_lines_or_arcs_def)

lemma add_lines_rejected: "has_arcs s \<Longrightarrow> add_lines s ld = Inl (DataError_lines_to_arcs, start_using s)"
  by (simp add: add_lines_def choose_lines_or_arcs_def)

text \<open>The first call on a store in neither mode.\<close>

lemma no_mode_connect:
  assumes "no_mode s"
  obtains db s1 where "connect (start_using s) = Inr (db, s1)" "map_of (meta db) ''has_arcs'' = None"
    "dbs s1 = Some db" "have_used s1" "\<not> has_lines s1" "\<not> has_arcs s1"
proof -
  from assms obtain db s1 where c: "connect (start_using s) = Inr (db, s1)" "map_of (meta db) ''has_arcs'' = None"
    by (auto simp: no_mode_def split: sum.splits)
  have "dbs s1 = Some db" using c(1) by (rule connect_Inr_dbs)
  moreover have "have_used s1" "\<not> has_lines s1" "\<not> has_arcs s1"
    using connect_no_row[OF c] assms by (simp_all add: no_mode_def)
  ultimately show ?thesis using that c by blast
qed

lemma choose_first:
  assumes "no_mode s" "l \<noteq> a"
  shows "\<exists>s2 db2. choose_lines_or_arcs (start_using s) l a = Inr s2 \<and> dbs s2 = Some db2 \<and> have_used s2 \<and>
           has_lines s2 = l \<and> has_arcs s2 = a \<and>
           map_of (meta db2) ''has_arcs'' = Some (if a then ''1'' else ''0'')"
proof -
  from no_mode_connect[OF assms(1)] obtain db s1 where
    c: "connect (start_using s) = Inr (db, s1)" "map_of (meta db) ''has_arcs'' = None"
    "dbs s1 = Some db" "have_used s1" by blast
  have n: "\<not> has_lines (start_using s)" "\<not> has_arcs (start_using s)"
    using assms(1) by (simp_all add: no_mode_def)
  show ?thesis
    unfolding choose_no_mode[OF c(1,2) n assms(2)]
    using c(4) meta_insert_or_ignore_new[OF c(2)] by simp
qed

lemma add_lines_first:
  assumes "no_mode s"
  shows "\<exists>s' db'. add_lines s ld = Inr s' \<and> dbs s' = Some db' \<and> have_used s' \<and> has_lines s' \<and> \<not> has_arcs s' \<and>
           map_of (meta db') ''has_arcs'' = Some ''0''"
proof -
  from choose_first[OF assms, of True False] obtain s2 db2 where
    2: "choose_lines_or_arcs (start_using s) True False = Inr s2" "dbs s2 = Some db2" "have_used s2"
       "has_lines s2" "\<not> has_arcs s2" "map_of (meta db2) ''has_arcs'' = Some ''0''"
    by auto
  have c: "choose_lines_or_arcs s2 True False = Inr s2"
    using 2 by (simp add: choose_lines_or_arcs_def)
  from add_lines_in_use[OF 2(2,3,4,5), of ld] obtain s' db' where
    3: "add_lines s2 ld = Inr s'" "same_session s2 s'" "dbs s' = Some db'" "meta db' = meta db2"
    by blast
  have "add_lines s ld = add_lines s2 ld"
    using 2 c by (simp add: add_lines_def)
  then show ?thesis using 2 3 by (simp add: same_session_def)
qed

lemma add_arcs_first:
  assumes "no_mode s"
  shows "\<exists>s' db'. add_arcs s ad = Inr s' \<and> dbs s' = Some db' \<and> have_used s' \<and> has_arcs s' \<and> \<not> has_lines s' \<and>
           map_of (meta db') ''has_arcs'' = Some ''1''"
proof -
  from choose_first[OF assms, of False True] obtain s2 db2 where
    2: "choose_lines_or_arcs (start_using s) False True = Inr s2" "dbs s2 = Some db2" "have_used s2"
       "\<not> has_lines s2" "has_arcs s2" "map_of (meta db2) ''has_arcs'' = Some ''1''"
    by auto
  have c: "choose_lines_or_arcs s2 False True = Inr s2"
    using 2 by (simp add: choose_lines_or_arcs_def)
  from add_arcs_in_use[OF 2(2,3,5,4), of ad] obtain s' db' where
    3: "add_arcs s2 ad = Inr s'" "same_session s2 s'" "dbs s' = Some db'" "meta db' = meta db2"
    by blast
  have "add_arcs s ad = add_arcs s2 ad"
    using 2 c by (simp add: add_arcs_def)
  then show ?thesis using 2 3 by (simp add: same_session_def)
qed

lemma no_mode_init: "no_mode (init nodisk ver disk)"
  by (simp add: no_mode_def init_def start_using_def erase_def reset_def connect_def open_db_def
      read_db_def check_schema_def empty_database_def init_db_def load_has_arcs_def
      meta_insert_or_ignore_def)

section \<open>Serialization errors\<close>

text \<open>
  Claim C9. \<^verbatim>\<open>loads\<close> raises the serialization error whenever the first byte of the
  data is not the marker \<^verbatim>\<open>z\<close> (byte 122), the empty byte string included. The error
  carries the first 40 bytes of the data and its length, and the object is left exactly
  as it was: the check comes before anything else the method does.
\<close>

theorem loads_rejects_missing_marker:
  "take 1 data \<noteq> [122] \<Longrightarrow>
   loads decompress executescript s data =
     Inl (DataError_unrecognized_serialization (take 40 data) (length data), s)"
  by (simp add: loads_def)

theorem loads_rejects_missing_marker_witness:
  "take 1 ([] :: byte list) \<noteq> [122] \<and>
   loads (\<lambda>d. Some []) (\<lambda>script db. Some db) (init False ''7.4'' None) [] =
     Inl (DataError_unrecognized_serialization [] 0, init False ''7.4'' None) \<and>
   take 1 ([120, 156, 3] :: byte list) \<noteq> [122] \<and>
   loads (\<lambda>d. Some []) (\<lambda>script db. Some db) (init True ''7.4'' None) [120, 156, 3] =
     Inl (DataError_unrecognized_serialization [120, 156, 3] 3, init True ''7.4'' None)"
  using loads_rejects_missing_marker [of "[]" "\<lambda>d. Some []" "\<lambda>script db. Some db" "init False ''7.4'' None"]
        loads_rejects_missing_marker [of "[120, 156, 3]" "\<lambda>d. Some []" "\<lambda>script db. Some db" "init True ''7.4'' None"]
  by simp

end
